theory Spec2Isabelle
  imports Complex_Main
begin

section \<open>JavaScript values used by the exam code\<close>

text \<open>
  A JavaScript number is an IEEE double. The model keeps the three special values apart
  and takes a finite double as the rational number it denotes. Comparison, maximum,
  minimum, absolute value and floor are exact on doubles and are computed here. The
  subtraction of two finite doubles rounds its result: it is one of the built-ins taken
  as given below, and only its special cases are spelled out.
\<close>

datatype jsnum = Fin rat | PInf | NInf | NaN

fun js_isNaN :: "jsnum \<Rightarrow> bool" where
  "js_isNaN NaN = True"
| "js_isNaN _ = False"

text \<open>\<^verbatim>\<open>a === b\<close> on two numbers: \<^verbatim>\<open>NaN\<close> is equal to nothing.\<close>

fun js_eq :: "jsnum \<Rightarrow> jsnum \<Rightarrow> bool" where
  "js_eq NaN _ = False"
| "js_eq _ NaN = False"
| "js_eq a b = (a = b)"

text \<open>\<^verbatim>\<open>a < b\<close> and \<^verbatim>\<open>a <= b\<close>: false as soon as one side is \<^verbatim>\<open>NaN\<close>.\<close>

fun js_lt :: "jsnum \<Rightarrow> jsnum \<Rightarrow> bool" where
  "js_lt NaN _ = False"
| "js_lt _ NaN = False"
| "js_lt (Fin x) (Fin y) = (x < y)"
| "js_lt PInf _ = False"
| "js_lt _ PInf = True"
| "js_lt _ NInf = False"
| "js_lt NInf _ = True"

fun js_le :: "jsnum \<Rightarrow> jsnum \<Rightarrow> bool" where
  "js_le NaN _ = False"
| "js_le _ NaN = False"
| "js_le a b = (a = b \<or> js_lt a b)"

text \<open>\<^verbatim>\<open>Math.max\<close> and \<^verbatim>\<open>Math.min\<close> of two numbers: \<^verbatim>\<open>NaN\<close> as soon as one is.\<close>

fun js_max :: "jsnum \<Rightarrow> jsnum \<Rightarrow> jsnum" where
  "js_max NaN _ = NaN"
| "js_max _ NaN = NaN"
| "js_max a b = (if js_lt a b then b else a)"

fun js_min :: "jsnum \<Rightarrow> jsnum \<Rightarrow> jsnum" where
  "js_min NaN _ = NaN"
| "js_min _ NaN = NaN"
| "js_min a b = (if js_lt b a then b else a)"

fun js_abs :: "jsnum \<Rightarrow> jsnum" where
  "js_abs (Fin x) = Fin \<bar>x\<bar>"
| "js_abs PInf = PInf"
| "js_abs NInf = PInf"
| "js_abs NaN = NaN"

fun js_floor :: "jsnum \<Rightarrow> jsnum" where
  "js_floor (Fin x) = Fin (of_int \<lfloor>x\<rfloor>)"
| "js_floor a = a"

text \<open>
  \<^verbatim>\<open>xs.slice(0, e)\<close>: the end is truncated towards zero, \<^verbatim>\<open>NaN\<close> counts as 0, and a
  negative end counts from the end of the array.
\<close>

fun js_slice0 :: "'a list \<Rightarrow> jsnum \<Rightarrow> 'a list" where
  "js_slice0 xs NaN = []"
| "js_slice0 xs PInf = xs"
| "js_slice0 xs NInf = []"
| "js_slice0 xs (Fin e) =
     (let k = (if e < 0 then \<lceil>e\<rceil> else \<lfloor>e\<rfloor>)
      in if k < 0 then take (nat (int (length xs) + k)) xs else take (nat k) xs)"

text \<open>A value produced by \<^verbatim>\<open>JSON.parse\<close>. An object lists its members in source order.\<close>

datatype json =
    JNull
  | JBool bool
  | JNum jsnum
  | JStr string
  | JArr "json list"
  | JObj "(string \<times> json) list"

text \<open>
  The built-ins of the language that the code calls and that are taken as given:
  \<^verbatim>\<open>String(n)\<close> on a number, \<^verbatim>\<open>Number(s)\<close> on a string, \<^verbatim>\<open>JSON.parse\<close>
  (\<open>None\<close> when it throws), and the rounded difference \<^verbatim>\<open>x - y\<close> of two finite doubles
  (an infinity when it overflows).
\<close>

record builtins =
  num_to_string :: "jsnum \<Rightarrow> string"
  string_to_num :: "string \<Rightarrow> jsnum"
  json_parse :: "string \<Rightarrow> json option"
  num_sub :: "rat \<Rightarrow> rat \<Rightarrow> jsnum"

text \<open>\<^verbatim>\<open>a - b\<close> on two numbers.\<close>

fun js_sub :: "builtins \<Rightarrow> jsnum \<Rightarrow> jsnum \<Rightarrow> jsnum" where
  "js_sub bi NaN _ = NaN"
| "js_sub bi _ NaN = NaN"
| "js_sub bi (Fin x) (Fin y) = num_sub bi x y"
| "js_sub bi PInf PInf = NaN"
| "js_sub bi NInf NInf = NaN"
| "js_sub bi PInf _ = PInf"
| "js_sub bi NInf _ = NInf"
| "js_sub bi _ PInf = NInf"
| "js_sub bi _ NInf = PInf"

text \<open>
  \<^verbatim>\<open>q.name\<close> on a parsed value that is not \<^verbatim>\<open>null\<close>: the member of an object (the last
  one when the text repeats the name), \<^verbatim>\<open>undefined\<close> (\<open>None\<close>) otherwise. None of the
  names the code reads is a property of arrays, strings, numbers or booleans.
\<close>

fun field :: "json \<Rightarrow> string \<Rightarrow> json option" where
  "field (JObj kvs) k = map_of (rev kvs) k"
| "field _ k = None"

text \<open>\<^verbatim>\<open>v ?? d\<close>: the default replaces \<^verbatim>\<open>undefined\<close> and \<^verbatim>\<open>null\<close>.\<close>

fun nullish_or :: "json option \<Rightarrow> json \<Rightarrow> json" where
  "nullish_or None d = d"
| "nullish_or (Some JNull) d = d"
| "nullish_or (Some v) d = v"

text \<open>The truth value of \<^verbatim>\<open>v ? a : b\<close>.\<close>

fun truthy :: "json option \<Rightarrow> bool" where
  "truthy None = False"
| "truthy (Some JNull) = False"
| "truthy (Some (JBool b)) = b"
| "truthy (Some (JNum n)) = (n \<noteq> NaN \<and> n \<noteq> Fin 0)"
| "truthy (Some (JStr s)) = (s \<noteq> [])"
| "truthy (Some (JArr xs)) = True"
| "truthy (Some (JObj kvs)) = True"

fun join_with :: "string \<Rightarrow> string list \<Rightarrow> string" where
  "join_with sep [] = []"
| "join_with sep [x] = x"
| "join_with sep (x # y # ys) = x @ sep @ join_with sep (y # ys)"

text \<open>
  \<^verbatim>\<open>String(v)\<close> on a parsed value; \<open>None\<close> is the \<^verbatim>\<open>TypeError\<close> of an object that cannot
  be converted to a primitive. An array joins its elements with commas, \<^verbatim>\<open>null\<close>
  elements as empty strings. A plain object is \<^verbatim>\<open>[object Object]\<close>, unless it has a
  member of its own called \<^verbatim>\<open>toString\<close>: a parsed member is never callable, the
  inherited \<^verbatim>\<open>valueOf\<close> returns the object itself, and the conversion throws.
\<close>

fun js_String :: "builtins \<Rightarrow> json \<Rightarrow> string option" where
  "js_String bi JNull = Some ''null''"
| "js_String bi (JBool b) = Some (if b then ''true'' else ''false'')"
| "js_String bi (JNum n) = Some (num_to_string bi n)"
| "js_String bi (JStr s) = Some s"
| "js_String bi (JArr xs) =
     (let parts = map (\<lambda>x. if x = JNull then Some [] else js_String bi x) xs
      in if None \<in> set parts then None else Some (join_with '','' (map the parts)))"
| "js_String bi (JObj kvs) =
     (if ''toString'' \<in> fst ` set kvs then None else Some ''[object Object]'')"

section \<open>Questions (\<^verbatim>\<open>RawQuestion\<close> of ai.ts, \<^verbatim>\<open>questionValidator\<close> of the attempts module)\<close>

datatype qtype = MCQ | NAT

datatype answer = ANum jsnum | AStr string

text \<open>
  The options are kept as the parsed values they are: the normalizer copies a
  four-element array of a provider without looking at its elements.
\<close>

record question =
  q_id :: jsnum
  q_type :: qtype
  q_question :: string
  q_options :: "json list option"
  q_answer :: "answer option"
  q_marks :: "jsnum option"
  q_topic :: "string option"
  q_explanation :: "string option"

datatype ai_error = ProviderError | ParseError | TypeError

section \<open>ai.ts: the normalizer inside \<^verbatim>\<open>tryOnceOpenRouter\<close> and \<^verbatim>\<open>tryAnthropic\<close>\<close>

text \<open>
  \<^verbatim>\<open>String(content).match(/\[[\s\S]*\]/)\<close>: the match starts at the first \<^verbatim>\<open>[\<close> and,
  the star being greedy, ends at the last \<^verbatim>\<open>]\<close> of the text; there is none when no
  \<^verbatim>\<open>]\<close> follows the first \<^verbatim>\<open>[\<close>.
\<close>

definition match_array :: "string \<Rightarrow> string option" where
  "match_array content =
     (let t = dropWhile (\<lambda>c. c \<noteq> CHR ''['') content
      in if t \<noteq> [] \<and> CHR '']'' \<in> set (tl t)
         then Some (rev (dropWhile (\<lambda>c. c \<noteq> CHR '']'') (rev t)))
         else None)"

text \<open>\<^verbatim>\<open>topics[idx % topics.length]\<close>, \<^verbatim>\<open>undefined\<close> on an empty array.\<close>

definition topic_at :: "string list \<Rightarrow> nat \<Rightarrow> json option" where
  "topic_at topics idx = (if topics = [] then None else Some (JStr (topics ! (idx mod length topics))))"

text \<open>\<^verbatim>\<open>String(q.topic ?? topics[idx % topics.length])\<close>.\<close>

definition topic_string :: "builtins \<Rightarrow> string list \<Rightarrow> json \<Rightarrow> nat \<Rightarrow> string option" where
  "topic_string bi topics q idx =
     (case field q ''topic'' of
        None \<Rightarrow> (case topic_at topics idx of None \<Rightarrow> Some ''undefined'' | Some d \<Rightarrow> js_String bi d)
      | Some JNull \<Rightarrow> (case topic_at topics idx of None \<Rightarrow> Some ''undefined'' | Some d \<Rightarrow> js_String bi d)
      | Some v \<Rightarrow> js_String bi v)"

text \<open>\<^verbatim>\<open>...(q.explanation ? { explanation: String(q.explanation) } : {})\<close>.\<close>

definition explanation_of :: "builtins \<Rightarrow> json \<Rightarrow> string option option" where
  "explanation_of bi q =
     (if truthy (field q ''explanation'')
      then (case js_String bi (the (field q ''explanation'')) of None \<Rightarrow> None | Some s \<Rightarrow> Some (Some s))
      else Some None)"

text \<open>\<^verbatim>\<open>q.type === "mcq" ? "mcq" : q.type === "nat" ? "nat" : "mcq"\<close>.\<close>

definition type_of :: "json \<Rightarrow> qtype" where
  "type_of q =
     (if field q ''type'' = Some (JStr ''mcq'') then MCQ
      else if field q ''type'' = Some (JStr ''nat'') then NAT else MCQ)"

text \<open>\<^verbatim>\<open>q.marks === 2 ? 2 : 1\<close>.\<close>

definition marks_of :: "json \<Rightarrow> jsnum" where
  "marks_of q = (if field q ''marks'' = Some (JNum (Fin 2)) then Fin 2 else Fin 1)"

text \<open>\<^verbatim>\<open>Array.isArray(q.options) && q.options.length === 4 ? q.options : ["A", "B", "C", "D"]\<close>.\<close>

definition options_of :: "json \<Rightarrow> json list" where
  "options_of q =
     (case field q ''options'' of
        Some (JArr os) \<Rightarrow>
          if length os = 4 then os else [JStr ''A'', JStr ''B'', JStr ''C'', JStr ''D'']
      | _ \<Rightarrow> [JStr ''A'', JStr ''B'', JStr ''C'', JStr ''D''])"

text \<open>\<^verbatim>\<open>typeof q.answer === "number" && q.answer >= 0 && q.answer <= 3 ? q.answer : 0\<close>.\<close>

definition mcq_answer_of :: "json \<Rightarrow> jsnum" where
  "mcq_answer_of q =
     (case field q ''answer'' of
        Some (JNum a) \<Rightarrow> if js_le (Fin 0) a \<and> js_le a (Fin 3) then a else Fin 0
      | _ \<Rightarrow> Fin 0)"

text \<open>\<^verbatim>\<open>typeof q.answer === "number" || typeof q.answer === "string" ? q.answer : "0"\<close>.\<close>

definition natAns_of :: "json \<Rightarrow> answer" where
  "natAns_of q =
     (case field q ''answer'' of
        Some (JNum a) \<Rightarrow> ANum a
      | Some (JStr s) \<Rightarrow> AStr s
      | _ \<Rightarrow> AStr ''0'')"

text \<open>
  The body of the \<^verbatim>\<open>map\<close> callback, the same text in both provider functions. Reading
  \<^verbatim>\<open>q.type\<close> of a \<^verbatim>\<open>null\<close> element throws a \<^verbatim>\<open>TypeError\<close>, and so does a \<^verbatim>\<open>String(...)\<close>
  that cannot convert its argument.
\<close>

definition normalize_question :: "builtins \<Rightarrow> string list \<Rightarrow> json \<Rightarrow> nat \<Rightarrow> ai_error + question" where
  "normalize_question bi topics q idx =
     (if q = JNull then Inl TypeError
      else
        case (js_String bi (nullish_or (field q ''question'') (JStr ''Untitled'')),
              topic_string bi topics q idx, explanation_of bi q) of
          (Some question, Some topic, Some explanation) \<Rightarrow>
            (if type_of q = MCQ then
               Inr \<lparr>q_id = Fin (of_nat (idx + 1)), q_type = MCQ, q_question = question,
                    q_options = Some (options_of q), q_answer = Some (ANum (mcq_answer_of q)),
                    q_marks = Some (marks_of q), q_topic = Some topic,
                    q_explanation = explanation\<rparr>
             else
               Inr \<lparr>q_id = Fin (of_nat (idx + 1)), q_type = NAT, q_question = question,
                    q_options = None, q_answer = Some (natAns_of q),
                    q_marks = Some (marks_of q), q_topic = Some topic,
                    q_explanation = explanation\<rparr>)
        | _ \<Rightarrow> Inl TypeError)"

text \<open>\<^verbatim>\<open>xs.map((q, idx) => ...)\<close> from index \<open>idx\<close> on: the first throwing element ends it.\<close>

fun normalize_from :: "builtins \<Rightarrow> string list \<Rightarrow> nat \<Rightarrow> json list \<Rightarrow> ai_error + question list" where
  "normalize_from bi topics idx [] = Inr []"
| "normalize_from bi topics idx (q # qs) =
     (case normalize_question bi topics q idx of
        Inl e \<Rightarrow> Inl e
      | Inr x \<Rightarrow> (case normalize_from bi topics (idx + 1) qs of
                    Inl e \<Rightarrow> Inl e
                  | Inr xs \<Rightarrow> Inr (x # xs)))"

text \<open>
  From the text of the reply to the questions: the match (or the whole text when there
  is none) goes to \<^verbatim>\<open>JSON.parse\<close>; a failure of the parse and a value that is not an
  array are both rethrown as the parse error; the first \<open>numQuestions\<close> elements are
  mapped.
\<close>

definition normalize_response :: "builtins \<Rightarrow> jsnum \<Rightarrow> string list \<Rightarrow> string \<Rightarrow> ai_error + question list" where
  "normalize_response bi numQuestions topics content =
     (let jsonStr = (case match_array content of Some m \<Rightarrow> m | None \<Rightarrow> content)
      in case json_parse bi jsonStr of
           Some (JArr parsed) \<Rightarrow> normalize_from bi topics 0 (js_slice0 parsed numQuestions)
         | _ \<Rightarrow> Inl ParseError)"

section \<open>ai.ts: the provider calls\<close>

text \<open>
  What one outbound request comes to: \<open>Failure\<close> when \<^verbatim>\<open>fetch\<close> rejects, the status is
  not 2xx, the body is not JSON or its content has no text form (each of them a throw
  before any parsing of questions), and otherwise the text \<^verbatim>\<open>String(content)\<close> taken
  from the body.
\<close>

datatype reply = Failure | Content string

datatype candidate = Anthropic | OpenRouter string

text \<open>The outside world: the reply to the \<open>k\<close>-th request of a run, sent to a candidate.\<close>

type_synonym providers = "nat \<Rightarrow> candidate \<Rightarrow> reply"

definition try_candidate ::
  "builtins \<Rightarrow> providers \<Rightarrow> jsnum \<Rightarrow> string list \<Rightarrow> nat \<Rightarrow> candidate \<Rightarrow> ai_error + question list" where
  "try_candidate bi world numQuestions topics k c =
     (case world k c of
        Failure \<Rightarrow> Inl ProviderError
      | Content content \<Rightarrow> normalize_response bi numQuestions topics content)"

definition tryAnthropic ::
  "builtins \<Rightarrow> providers \<Rightarrow> jsnum \<Rightarrow> string list \<Rightarrow> nat \<Rightarrow> ai_error + question list" where
  "tryAnthropic bi world numQuestions topics k = try_candidate bi world numQuestions topics k Anthropic"

definition tryOnceOpenRouter ::
  "builtins \<Rightarrow> providers \<Rightarrow> jsnum \<Rightarrow> string list \<Rightarrow> nat \<Rightarrow> string \<Rightarrow> ai_error + question list" where
  "tryOnceOpenRouter bi world numQuestions topics k model =
     try_candidate bi world numQuestions topics k (OpenRouter model)"

definition models :: "string list" where
  "models = [''anthropic/claude-3-haiku'', ''mistralai/mixtral-8x7b-instruct'', ''openai/gpt-4o-mini'']"

section \<open>ai.ts: \<^verbatim>\<open>buildLocalQuestions\<close>\<close>

definition baseMCQs :: "(string \<times> string list \<times> nat \<times> string) list" where
  "baseMCQs =
    [(''Which data structure is most suitable for implementing a LRU cache?'',
      [''Queue'', ''Stack'', ''Hash map + Doubly linked list'', ''Binary heap''], 2,
      ''programming_and_dsa''),
     (''Which of the following is a lossless-join, dependency preserving normal form?'',
      [''1NF'', ''2NF'', ''3NF'', ''BCNF (not always dependency preserving)''], 2,
      ''database_management''),
     (''Which scheduling algorithm can lead to starvation without aging?'',
      [''Round Robin'', ''FCFS'', ''SJF'', ''Priority (preemptive)''], 3,
      ''operating_systems''),
     (''In networking, which layer is responsible for end-to-end reliable delivery?'',
      [''Application'', ''Transport'', ''Network'', ''Link''], 1,
      ''computer_networks''),
     (''Which of the following is NOT typically part of a CPU pipeline stage?'',
      [''Fetch'', ''Decode'', ''Execute'', ''Fragment''], 3,
      ''computer_organization''),
     (''Which language class is recognized by a deterministic finite automaton (DFA)?'',
      [''Context-sensitive'', ''Context-free'', ''Regular'', ''Recursively enumerable''], 2,
      ''theory_of_computation''),
     (''Which phase of a compiler performs lexical analysis?'',
      [''Frontend: Lexer'', ''Frontend: Parser'', ''Backend: Code generation'', ''Optimizer''], 0,
      ''compiler_design''),
     (''Which statement is TRUE about a simple undirected graph?'',
      [''Self-loops are allowed'', ''Multiple edges are allowed'',
       ''Degree sum equals twice the number of edges'', ''All nodes have the same degree''], 2,
      ''discrete_mathematics'')]"

text \<open>The second answer is the double that the literal \<^verbatim>\<open>0.21\<close> denotes.\<close>

definition baseNATs :: "(string \<times> answer \<times> string) list" where
  "baseNATs =
    [(''Compute the determinant of [[1,2],[3,4]].'', ANum (Fin (- 2)), ''linear_algebra''),
     (''If X~Bernoulli(p) with p=0.3, what is Var(X)? Enter as decimal.'',
      ANum (Fin (7566047373982433 / 36028797018963968)),
      ''probability_statistics''),
     (''Find the derivative of f(x)=3x^2 at x=2.'', ANum (Fin 12), ''programming_and_dsa'')]"

text \<open>
  \<^verbatim>\<open>base[(i / 2) % base.length | 0]\<close> for the loop counter \<open>i\<close>, a non-negative integer:
  the remainder of \<open>i / 2\<close> truncated is the remainder of the integer half. Reading past
  the end gives \<^verbatim>\<open>undefined\<close> (\<open>None\<close>).
\<close>

definition pick :: "'a list \<Rightarrow> nat \<Rightarrow> 'a option" where
  "pick base i =
     (if base = [] then None
      else let k = (i div 2) mod length base in if k < length base then Some (base ! k) else None)"

text \<open>
  One turn of the loop body: the question pushed for counter \<open>i\<close>; reading a member of
  an \<^verbatim>\<open>undefined\<close> pick would throw.
\<close>

definition local_question :: "string list \<Rightarrow> bool \<Rightarrow> nat \<Rightarrow> ai_error + question" where
  "local_question topicsList withExplanations i =
     (let isMcq = (i mod 2 = 0);
          marks = (if i mod 3 = 0 then Fin 2 else Fin 1);
          topic = (if topicsList = [] then ''general_aptitude''
                   else topicsList ! (i mod length topicsList))
      in if isMcq then
           (case pick baseMCQs i of
              None \<Rightarrow> Inl TypeError
            | Some (q, options, ans, ptopic) \<Rightarrow>
                Inr \<lparr>q_id = Fin (of_nat (i + 1)), q_type = MCQ, q_question = q,
                     q_options = Some (map JStr options), q_answer = Some (ANum (Fin (of_nat ans))),
                     q_marks = Some marks,
                     q_topic = Some (if ptopic \<noteq> [] then ptopic else topic),
                     q_explanation =
                       (if withExplanations
                        then Some ''Reason about definitions and standard properties; select the logically valid option.''
                        else None)\<rparr>)
         else
           (case pick baseNATs i of
              None \<Rightarrow> Inl TypeError
            | Some (q, ans, ptopic) \<Rightarrow>
                Inr \<lparr>q_id = Fin (of_nat (i + 1)), q_type = NAT, q_question = q,
                     q_options = None, q_answer = Some ans,
                     q_marks = Some marks,
                     q_topic = Some (if ptopic \<noteq> [] then ptopic else topic),
                     q_explanation =
                       (if withExplanations
                        then Some ''Apply standard formula or computation to obtain the numeric result.''
                        else None)\<rparr>))"

text \<open>
  \<^verbatim>\<open>for (let i = 0; i < total; i++)\<close>, with \<open>totalN\<close> for the source's \<^verbatim>\<open>total\<close>. The result is \<open>None\<close> when the loop does not
  return, \<open>Some (Inl e)\<close> when its body throws.
\<close>

partial_function (option) local_loop ::
  "jsnum \<Rightarrow> string list \<Rightarrow> bool \<Rightarrow> nat \<Rightarrow> question list \<Rightarrow> (ai_error + question list) option" where
  "local_loop totalN topicsList withExplanations i arr =
     (if js_lt (Fin (of_nat i)) totalN
      then (case local_question topicsList withExplanations i of
              Inl e \<Rightarrow> Some (Inl e)
            | Inr q \<Rightarrow> local_loop totalN topicsList withExplanations (i + 1) (arr @ [q]))
      else Some (Inr arr))"

declare local_loop.simps [code]

definition buildLocalQuestions ::
  "jsnum \<Rightarrow> string list \<Rightarrow> bool \<Rightarrow> (ai_error + question list) option" where
  "buildLocalQuestions n topicsList withExplanations =
     (let totalN = js_max (Fin 5) (js_min (Fin 65) n)
      in local_loop totalN topicsList withExplanations 0 [])"

section \<open>ai.ts: \<^verbatim>\<open>generateExam\<close>\<close>

datatype difficulty = Easy | Medium | Hard | Mixed

record args =
  subjectMix :: "string list option"
  numQuestions :: "jsnum option"
  difficulty :: "difficulty option"
  includeExplanations :: "bool option"

text \<open>The two keys as the handler holds them after reading the environment and trimming.\<close>

record config =
  anthropicKey :: string
  openrouterKey :: string

definition default_topics :: "string list" where
  "default_topics =
    [''programming_and_dsa'', ''database_management'', ''operating_systems'', ''computer_networks'',
     ''computer_organization'', ''theory_of_computation'', ''compiler_design'',
     ''discrete_mathematics'', ''linear_algebra'', ''probability_statistics'', ''general_aptitude'']"

text \<open>\<^verbatim>\<open>Math.min(Math.max(args.numQuestions ?? 10, 5), 65)\<close>.\<close>

definition numQuestions_of :: "args \<Rightarrow> jsnum" where
  "numQuestions_of a =
     js_min (js_max (case numQuestions a of None \<Rightarrow> Fin 10 | Some n \<Rightarrow> n) (Fin 5)) (Fin 65)"

definition includeExplanations_of :: "args \<Rightarrow> bool" where
  "includeExplanations_of a = (case includeExplanations a of None \<Rightarrow> True | Some b \<Rightarrow> b)"

definition topics_of :: "args \<Rightarrow> string list" where
  "topics_of a =
     (case subjectMix a of
        None \<Rightarrow> default_topics
      | Some m \<Rightarrow> if length m > 0 then m else default_topics)"

text \<open>
  \<^verbatim>\<open>for (const model of models) { try { return await tryOnceOpenRouter(model) } catch { continue } }\<close>.
  The log \<open>tr\<close> lists the candidates called so far, in order; the next request is
  number \<open>length tr\<close>.
\<close>

fun try_models ::
  "builtins \<Rightarrow> providers \<Rightarrow> jsnum \<Rightarrow> string list \<Rightarrow> string list \<Rightarrow> candidate list
     \<Rightarrow> candidate list \<times> question list option" where
  "try_models bi world n topics [] tr = (tr, None)"
| "try_models bi world n topics (model # ms) tr =
     (case tryOnceOpenRouter bi world n topics (length tr) model of
        Inr questions \<Rightarrow> (tr @ [OpenRouter model], Some questions)
      | Inl e \<Rightarrow> try_models bi world n topics ms (tr @ [OpenRouter model]))"

text \<open>
  The handler, from the provider selection on. The prompt texts only travel to the
  providers, whose replies are arbitrary here, so they are not built. The result pairs
  the log of the requests made with what the handler returns.
\<close>

definition generateExam ::
  "builtins \<Rightarrow> config \<Rightarrow> providers \<Rightarrow> args
     \<Rightarrow> candidate list \<times> (ai_error + question list) option" where
  "generateExam bi cfg world a =
     (let n = numQuestions_of a;
          topics = topics_of a;
          incl = includeExplanations_of a
      in
      if anthropicKey cfg \<noteq> [] then
        (case tryAnthropic bi world n topics 0 of
           Inr questions \<Rightarrow> ([Anthropic], Some (Inr questions))
         | Inl firstErr \<Rightarrow>
             if openrouterKey cfg \<noteq> [] then
               (case try_models bi world n topics models [Anthropic] of
                  (tr, Some questions) \<Rightarrow> (tr, Some (Inr questions))
                | (tr, None) \<Rightarrow>
                    (case tryOnceOpenRouter bi world n topics (length tr) (models ! 0) of
                       Inr questions \<Rightarrow> (tr @ [OpenRouter (models ! 0)], Some (Inr questions))
                     | Inl secondErr \<Rightarrow>
                         (tr @ [OpenRouter (models ! 0)], buildLocalQuestions n topics incl)))
             else ([Anthropic], buildLocalQuestions n topics incl))
      else if openrouterKey cfg \<noteq> [] then
        (case try_models bi world n topics models [] of
           (tr, Some questions) \<Rightarrow> (tr, Some (Inr questions))
         | (tr, None) \<Rightarrow>
             if anthropicKey cfg \<noteq> [] then
               (case tryAnthropic bi world n topics (length tr) of
                  Inr questions \<Rightarrow> (tr @ [Anthropic], Some (Inr questions))
                | Inl e \<Rightarrow> (tr @ [Anthropic], buildLocalQuestions n topics incl))
             else
               (case tryOnceOpenRouter bi world n topics (length tr) (models ! 0) of
                  Inr fallbackQuestions \<Rightarrow>
                    (tr @ [OpenRouter (models ! 0)], Some (Inr fallbackQuestions))
                | Inl e \<Rightarrow> (tr @ [OpenRouter (models ! 0)], buildLocalQuestions n topics incl)))
      else ([], buildLocalQuestions n topics incl))"

section \<open>The attempts module: data\<close>

datatype attempt_error = NotAuthenticated | NotFound | NotAuthorized | AlreadySubmitted

record attempt =
  a_userId :: nat
  a_questions :: "question list"
  a_answers :: "string \<rightharpoonup> answer"
  a_score :: nat
  a_total :: nat
  a_durationSec :: jsnum
  a_weakTopics :: "string list"
  a_suggestions :: "string list"
  a_completed :: bool
  a_startedAt :: nat
  a_submittedAt :: "nat option"

text \<open>The table \<^verbatim>\<open>examAttempts\<close>, with the identifier the next insert will return.\<close>

record database =
  next_id :: nat
  examAttempts :: "nat \<rightharpoonup> attempt"

record mistake =
  m_id :: jsnum
  m_topic :: string
  m_correct :: string
  m_yours :: string

record submit_result =
  r_score :: nat
  r_total :: nat
  r_weakTopics :: "string list"
  r_suggestions :: "string list"
  r_mistakes :: "mistake list"

section \<open>The attempts module: \<^verbatim>\<open>createAttempt\<close>\<close>

text \<open>
  The caller is what \<^verbatim>\<open>getCurrentUser\<close> returns: the identifier of the signed-in user,
  or nothing. The validator of the argument fixes the type of the questions and nothing
  else.
\<close>

definition createAttempt ::
  "nat option \<Rightarrow> database \<Rightarrow> question list \<Rightarrow> nat \<Rightarrow> database \<times> (attempt_error + nat)" where
  "createAttempt user db questions now =
     (case user of
        None \<Rightarrow> (db, Inl NotAuthenticated)
      | Some uid \<Rightarrow>
          let attemptId = next_id db;
              doc = \<lparr>a_userId = uid, a_questions = questions, a_answers = Map.empty,
                     a_score = 0, a_total = length questions, a_durationSec = Fin 0,
                     a_weakTopics = [], a_suggestions = [], a_completed = False,
                     a_startedAt = now, a_submittedAt = None\<rparr>
          in (db\<lparr>next_id := attemptId + 1, examAttempts := (examAttempts db)(attemptId \<mapsto> doc)\<rparr>,
              Inr attemptId))"

section \<open>The attempts module: the object \<^verbatim>\<open>topicStats\<close>\<close>

text \<open>
  \<^verbatim>\<open>topicStats\<close> is an object literal used as a dictionary, so two rules of the language
  show through. First, a name that \<^verbatim>\<open>Object.prototype\<close> defines is found on the fresh
  object already: \<^verbatim>\<open>!topicStats[topic]\<close> is false for it, no member of its own is
  created, and the two counters are written to the inherited value instead.
\<close>

definition object_prototype_names :: "string list" where
  "object_prototype_names =
    [''constructor'', ''__defineGetter__'', ''__defineSetter__'', ''hasOwnProperty'',
     ''__lookupGetter__'', ''__lookupSetter__'', ''isPrototypeOf'', ''propertyIsEnumerable'',
     ''toString'', ''valueOf'', ''__proto__'', ''toLocaleString'']"

text \<open>
  Second, \<^verbatim>\<open>Object.entries\<close> lists the members whose names are array indices (a decimal
  numeral without leading zero, at most \<open>2\<^sup>3\<^sup>2 - 2\<close>) first, in ascending numeric order,
  and only then the other names in the order of their creation.
\<close>

definition is_digit :: "char \<Rightarrow> bool" where
  "is_digit c = (48 \<le> (of_char c :: nat) \<and> (of_char c :: nat) \<le> 57)"

definition digits_value :: "string \<Rightarrow> nat" where
  "digits_value s = foldl (\<lambda>a c. 10 * a + ((of_char c :: nat) - 48)) 0 s"

definition is_array_index :: "string \<Rightarrow> bool" where
  "is_array_index s =
     (s \<noteq> [] \<and> list_all is_digit s \<and> (hd s = CHR ''0'' \<longrightarrow> s = ''0'')
      \<and> digits_value s < 4294967295)"

text \<open>The members of the object itself, in creation order: name, \<^verbatim>\<open>total\<close>, \<^verbatim>\<open>wrong\<close>.\<close>

type_synonym topic_stats = "(string \<times> nat \<times> nat) list"

definition Object_entries :: "topic_stats \<Rightarrow> topic_stats" where
  "Object_entries stats =
     sort_key (\<lambda>e. digits_value (fst e)) (filter (\<lambda>e. is_array_index (fst e)) stats)
     @ filter (\<lambda>e. \<not> is_array_index (fst e)) stats"

text \<open>\<^verbatim>\<open>if (!topicStats[topic]) topicStats[topic] = { total: 0, wrong: 0 }\<close>.\<close>

definition init_topic :: "topic_stats \<Rightarrow> string \<Rightarrow> topic_stats" where
  "init_topic stats topic =
     (if topic \<in> set object_prototype_names \<or> topic \<in> fst ` set stats then stats
      else stats @ [(topic, 0, 0)])"

text \<open>
  \<^verbatim>\<open>topicStats[topic].total += 1\<close> and \<^verbatim>\<open>topicStats[topic].wrong += 1\<close>: the member
  of that name is updated; for an inherited name there is none and the object keeps its
  members.
\<close>

definition add_total :: "topic_stats \<Rightarrow> string \<Rightarrow> topic_stats" where
  "add_total stats topic = map (\<lambda>(k, t, w). if k = topic then (k, t + 1, w) else (k, t, w)) stats"

definition add_wrong :: "topic_stats \<Rightarrow> string \<Rightarrow> topic_stats" where
  "add_wrong stats topic = map (\<lambda>(k, t, w). if k = topic then (k, t, w + 1) else (k, t, w)) stats"

section \<open>The attempts module: grading inside \<^verbatim>\<open>submitAttempt\<close>\<close>

text \<open>\<^verbatim>\<open>(q.topic ?? "general_aptitude").toString()\<close>.\<close>

definition topic_of :: "question \<Rightarrow> string" where
  "topic_of q = (case q_topic q of None \<Rightarrow> ''general_aptitude'' | Some t \<Rightarrow> t)"

text \<open>\<^verbatim>\<open>args.answers[String(q.id)]\<close>.\<close>

definition userAns_of :: "builtins \<Rightarrow> (string \<rightharpoonup> answer) \<Rightarrow> question \<Rightarrow> answer option" where
  "userAns_of bi answers q = answers (num_to_string bi (q_id q))"

text \<open>\<^verbatim>\<open>typeof q.answer === "number" ? q.answer : -1\<close>.\<close>

definition correctIndex :: "question \<Rightarrow> jsnum" where
  "correctIndex q = (case q_answer q of Some (ANum n) \<Rightarrow> n | _ \<Rightarrow> Fin (- 1))"

text \<open>\<^verbatim>\<open>typeof x === "number" ? x : Number(x)\<close>, where \<^verbatim>\<open>Number(undefined)\<close> is \<^verbatim>\<open>NaN\<close>.\<close>

definition to_number :: "builtins \<Rightarrow> answer option \<Rightarrow> jsnum" where
  "to_number bi x =
     (case x of None \<Rightarrow> NaN | Some (ANum n) \<Rightarrow> n | Some (AStr s) \<Rightarrow> string_to_num bi s)"

text \<open>\<^verbatim>\<open>String(x)\<close> on a stored or submitted answer.\<close>

definition answer_string :: "builtins \<Rightarrow> answer \<Rightarrow> string" where
  "answer_string bi x = (case x of ANum n \<Rightarrow> num_to_string bi n | AStr s \<Rightarrow> s)"

text \<open>\<^verbatim>\<open>userAns === undefined ? "blank" : String(userAns)\<close>.\<close>

definition yours_string :: "builtins \<Rightarrow> answer option \<Rightarrow> string" where
  "yours_string bi userAns = (case userAns of None \<Rightarrow> ''blank'' | Some x \<Rightarrow> answer_string bi x)"

text \<open>The double that the literal \<^verbatim>\<open>0.01\<close> denotes: \<open>5764607523034235 / 2\<^sup>5\<^sup>9\<close>.\<close>

definition tolerance :: rat where
  "tolerance = 5764607523034235 / 576460752303423488"

text \<open>The two conditions under which \<^verbatim>\<open>score += 1\<close> runs.\<close>

definition is_correct :: "builtins \<Rightarrow> question \<Rightarrow> answer option \<Rightarrow> bool" where
  "is_correct bi q userAns =
     (if q_type q = MCQ then
        (case userAns of Some (ANum u) \<Rightarrow> js_eq u (correctIndex q) | _ \<Rightarrow> False)
      else
        (let correctNat = to_number bi (q_answer q);
             userVal = to_number bi userAns
         in \<not> js_isNaN correctNat \<and> \<not> js_isNaN userVal
            \<and> js_lt (js_abs (js_sub bi userVal correctNat)) (Fin tolerance)))"

text \<open>The entry pushed to \<^verbatim>\<open>mistakes\<close> in the other branch.\<close>

definition mistake_of :: "builtins \<Rightarrow> question \<Rightarrow> answer option \<Rightarrow> mistake" where
  "mistake_of bi q userAns =
     \<lparr>m_id = q_id q, m_topic = topic_of q,
      m_correct = (if q_type q = MCQ then num_to_string bi (correctIndex q)
                   else (case q_answer q of None \<Rightarrow> [] | Some x \<Rightarrow> answer_string bi x)),
      m_yours = yours_string bi userAns\<rparr>"

record grading =
  g_score :: nat
  g_mistakes :: "mistake list"
  g_topicStats :: topic_stats

text \<open>One turn of \<^verbatim>\<open>for (const q of questions)\<close>.\<close>

definition grade_question :: "builtins \<Rightarrow> (string \<rightharpoonup> answer) \<Rightarrow> grading \<Rightarrow> question \<Rightarrow> grading" where
  "grade_question bi answers g q =
     (let topic = topic_of q;
          stats = add_total (init_topic (g_topicStats g) topic) topic;
          userAns = userAns_of bi answers q
      in if is_correct bi q userAns
         then g\<lparr>g_score := g_score g + 1, g_topicStats := stats\<rparr>
         else g\<lparr>g_mistakes := g_mistakes g @ [mistake_of bi q userAns],
                g_topicStats := add_wrong stats topic\<rparr>)"

definition grade :: "builtins \<Rightarrow> (string \<rightharpoonup> answer) \<Rightarrow> question list \<Rightarrow> grading" where
  "grade bi answers questions =
     foldl (grade_question bi answers) \<lparr>g_score = 0, g_mistakes = [], g_topicStats = []\<rparr> questions"

section \<open>The attempts module: guidance and \<^verbatim>\<open>submitAttempt\<close>\<close>

text \<open>
  \<^verbatim>\<open>Object.entries(topicStats).filter(...).sort((a, b) => b[1].wrong - a[1].wrong).map(([t]) => t).slice(0, 4)\<close>;
  the sort of the language is stable.
\<close>

definition weakTopics_of :: "topic_stats \<Rightarrow> string list" where
  "weakTopics_of stats =
     take 4 (map fst (sort_key (\<lambda>(t, total_n, wrong). - int wrong)
                        (filter (\<lambda>(t, total_n, wrong). wrong > 0) (Object_entries stats))))"

text \<open>\<^verbatim>\<open>t.replace(/_/g, " ")\<close>.\<close>

definition spaced :: "string \<Rightarrow> string" where
  "spaced t = map (\<lambda>c. if c = CHR ''_'' then CHR '' '' else c) t"

definition generic_suggestions :: "string list" where
  "generic_suggestions =
    [''Review basics first: definitions, standard formulas, and canonical properties.'',
     ''Practice 10 targeted problems per weak topic and redo similar questions.'',
     ''Reattempt a shorter mock to validate improvements.'']"

definition suggestions_of :: "string list \<Rightarrow> string list" where
  "suggestions_of weakTopics =
     (if length weakTopics \<noteq> 0
      then [''Focus next: '' @ join_with '', '' (map spaced weakTopics)] else [])
     @ generic_suggestions"

definition submitAttempt ::
  "builtins \<Rightarrow> nat option \<Rightarrow> database \<Rightarrow> nat \<Rightarrow> (string \<rightharpoonup> answer) \<Rightarrow> jsnum \<Rightarrow> nat
     \<Rightarrow> database \<times> (attempt_error + submit_result)" where
  "submitAttempt bi user db attemptId answers durationSec now =
     (case user of
        None \<Rightarrow> (db, Inl NotAuthenticated)
      | Some uid \<Rightarrow>
          (case examAttempts db attemptId of
             None \<Rightarrow> (db, Inl NotFound)
           | Some att \<Rightarrow>
               if a_userId att \<noteq> uid then (db, Inl NotAuthorized)
               else if a_completed att then (db, Inl AlreadySubmitted)
               else
                 let questions = a_questions att;
                     g = grade bi answers questions;
                     weakTopics = weakTopics_of (g_topicStats g);
                     suggestions = suggestions_of weakTopics;
                     patched = att\<lparr>a_answers := answers, a_score := g_score g,
                                   a_durationSec := js_max (Fin 0) (js_floor durationSec),
                                   a_weakTopics := weakTopics, a_suggestions := suggestions,
                                   a_completed := True, a_submittedAt := Some now\<rparr>
                 in (db\<lparr>examAttempts := (examAttempts db)(attemptId \<mapsto> patched)\<rparr>,
                     Inr \<lparr>r_score = g_score g, r_total = length questions,
                          r_weakTopics = weakTopics, r_suggestions = suggestions,
                          r_mistakes = g_mistakes g\<rparr>)))"

section \<open>Generation, in the words of the specification\<close>

text \<open>
  The invariant of a question: a multiple-choice question has exactly four options and a
  numeric answer between 0 and 3; a numeric-answer question has no options.
\<close>

definition canonical :: "question \<Rightarrow> bool" where
  "canonical q =
     (case q_type q of
        MCQ \<Rightarrow> (case q_options q of Some os \<Rightarrow> length os = 4 | None \<Rightarrow> False)
               \<and> (case q_answer q of Some (ANum (Fin r)) \<Rightarrow> 0 \<le> r \<and> r \<le> 3 | _ \<Rightarrow> False)
      | NAT \<Rightarrow> q_options q = None)"

text \<open>How many questions the local generator builds for a given count.\<close>

fun local_count :: "jsnum \<Rightarrow> nat" where
  "local_count (Fin x) = nat \<lceil>max 5 (min 65 x)\<rceil>"
| "local_count PInf = 65"
| "local_count NInf = 5"
| "local_count NaN = 0"

text \<open>
  The fixed order of the candidates for the configured keys: the primary provider, then
  the three models of the secondary one, then its first model once more.
\<close>

definition schedule :: "config \<Rightarrow> candidate list" where
  "schedule cfg =
     (if anthropicKey cfg \<noteq> [] then [Anthropic] else [])
     @ (if openrouterKey cfg \<noteq> [] then map OpenRouter models @ [OpenRouter (models ! 0)] else [])"

text \<open>Every call of the log, numbered from \<open>k\<close> on, threw.\<close>

fun failed_from ::
  "builtins \<Rightarrow> providers \<Rightarrow> jsnum \<Rightarrow> string list \<Rightarrow> nat \<Rightarrow> candidate list \<Rightarrow> bool" where
  "failed_from bi world n topics k [] = True"
| "failed_from bi world n topics k (c # cs) =
     (isl (try_candidate bi world n topics k c) \<and> failed_from bi world n topics (k + 1) cs)"

text \<open>
  A value whose conversion to text does not throw: anything but an object with a member
  of its own named \<^verbatim>\<open>toString\<close>, directly or inside arrays. An array element that the
  normalizer can map: it is not \<^verbatim>\<open>null\<close>, and its question, topic and explanation, where
  present, convert to text; its other members are arbitrary.
\<close>

fun convertible :: "json \<Rightarrow> bool" where
  "convertible (JArr xs) = list_all convertible xs"
| "convertible (JObj kvs) = (''toString'' \<notin> fst ` set kvs)"
| "convertible v = True"

definition element_ok :: "json \<Rightarrow> bool" where
  "element_ok q =
     (q \<noteq> JNull
      \<and> list_all (\<lambda>k. case field q k of None \<Rightarrow> True | Some v \<Rightarrow> convertible v)
            [''question'', ''topic'', ''explanation''])"

text \<open>The text handed to \<^verbatim>\<open>JSON.parse\<close>: the match, or the whole content without one.\<close>

definition span_of :: "string \<Rightarrow> string" where
  "span_of content = (case match_array content of Some m \<Rightarrow> m | None \<Rightarrow> content)"

section \<open>Weak topics, in the words of the specification\<close>

text \<open>The distinct elements of a list in the order of their first occurrence.\<close>

fun first_seen :: "'a list \<Rightarrow> 'a list" where
  "first_seen [] = []"
| "first_seen (x # xs) = x # removeAll x (first_seen xs)"

text \<open>A missed question is one that is not scored correct, answered or not.\<close>

definition missed :: "builtins \<Rightarrow> (string \<rightharpoonup> answer) \<Rightarrow> question \<Rightarrow> bool" where
  "missed bi answers q = (\<not> is_correct bi q (userAns_of bi answers q))"

definition miss_count :: "builtins \<Rightarrow> (string \<rightharpoonup> answer) \<Rightarrow> question list \<Rightarrow> string \<Rightarrow> nat" where
  "miss_count bi answers qs t = length (filter (\<lambda>q. topic_of q = t \<and> missed bi answers q) qs)"

definition ask_count :: "question list \<Rightarrow> string \<Rightarrow> nat" where
  "ask_count qs t = length (filter (\<lambda>q. topic_of q = t) qs)"

text \<open>
  The order in which \<^verbatim>\<open>Object.entries\<close> lists members created in the order \<open>L\<close>: the
  names that are array indices in ascending numeric order, then the other names as
  created.
\<close>

definition key_order :: "string list \<Rightarrow> string list" where
  "key_order L =
     sort_key digits_value (filter is_array_index L) @ filter (\<lambda>t. \<not> is_array_index t) L"

section \<open>Sample values\<close>

text \<open>
  A finite fragment of the built-ins, for the evaluations below: it agrees with the
  language on the numbers and texts listed, \<^verbatim>\<open>Number\<close> of any other text is taken as
  \<^verbatim>\<open>NaN\<close> and \<^verbatim>\<open>JSON.parse\<close> of any other text as a failure. The difference is the
  exact one: the numbers subtracted below are doubles whose exact difference is a double
  again, so that nothing is rounded.
\<close>

definition sample_text :: string where
  \<open>sample_text = ''[{"type":"nat","explanation":"because"}]''\<close>

text \<open>An element whose question is an array and whose topic is an object.\<close>

definition nested_text :: string where
  \<open>nested_text = ''[{"question":["a","b"],"topic":{"name":"os"}}]''\<close>

definition nested_element :: json where
  "nested_element =
     JObj [(''question'', JArr [JStr ''a'', JStr ''b'']),
           (''topic'', JObj [(''name'', JStr ''os'')])]"

text \<open>An element whose question is an object with a member named \<^verbatim>\<open>toString\<close>.\<close>

definition unprintable_text :: string where
  \<open>unprintable_text = ''[{"question":{"toString":1}}]''\<close>

definition unprintable_element :: json where
  "unprintable_element = JObj [(''question'', JObj [(''toString'', JNum (Fin 1))])]"

definition sample_builtins :: builtins where
  "sample_builtins =
     \<lparr>num_to_string =
        (\<lambda>n. case map_of [(Fin 0, ''0''), (Fin 1, ''1''), (Fin 2, ''2''), (Fin 12, ''12''),
                           (Fin (- 1), ''-1'')] n of
               Some s \<Rightarrow> s | None \<Rightarrow> ''NaN''),
      string_to_num =
        (\<lambda>s. case map_of [(''0'', Fin 0), (''1'', Fin 1), (''2'', Fin 2), (''12'', Fin 12)] s of
               Some n \<Rightarrow> n | None \<Rightarrow> NaN),
      json_parse =
        map_of [(''[]'', JArr []), (''[null]'', JArr [JNull]), (''[1]'', JArr [JNum (Fin 1)]),
                (sample_text,
                 JArr [JObj [(''type'', JStr ''nat''), (''explanation'', JStr ''because'')]]),
                (nested_text, JArr [nested_element]),
                (unprintable_text, JArr [unprintable_element])],
      num_sub = (\<lambda>x y. Fin (x - y))\<rparr>"

definition sample_mcq :: question where
  "sample_mcq = \<lparr>q_id = Fin 1, q_type = MCQ, q_question = ''Pick one'',
                  q_options = Some [JStr ''A'', JStr ''B'', JStr ''C'', JStr ''D''],
                  q_answer = Some (ANum (Fin 2)), q_marks = Some (Fin 1),
                  q_topic = Some ''operating_systems'', q_explanation = None\<rparr>"

definition sample_nat :: question where
  "sample_nat = \<lparr>q_id = Fin 2, q_type = NAT, q_question = ''Compute'',
                  q_options = None, q_answer = Some (ANum (Fin 12)), q_marks = Some (Fin 2),
                  q_topic = Some ''linear_algebra'', q_explanation = None\<rparr>"

definition empty_db :: database where
  "empty_db = \<lparr>next_id = 0, examAttempts = Map.empty\<rparr>"

text \<open>User 7 has created one attempt, number 0, and then submitted it.\<close>

definition sample_db :: database where
  "sample_db = fst (createAttempt (Some 7) empty_db [sample_mcq, sample_nat] 100)"

definition submitted_db :: database where
  "submitted_db = fst (submitAttempt sample_builtins (Some 7) sample_db 0 Map.empty (Fin 30) 200)"

text \<open>
  The answers of an end-to-end example: the right option, and for 12 the double
  11.9921875, which is \<open>1535 / 128\<close>.
\<close>

definition sample_answers :: "string \<rightharpoonup> answer" where
  "sample_answers = [''1'' \<mapsto> ANum (Fin 2), ''2'' \<mapsto> ANum (Fin (1535 / 128))]"

text \<open>An attempt whose two questions carry the same identifier.\<close>

definition twin_db :: database where
  "twin_db = fst (createAttempt (Some 7) empty_db [sample_mcq, sample_mcq] 100)"

text \<open>An attempt with one multiple-choice question that stores no answer.\<close>

definition keyless_mcq :: question where
  "keyless_mcq = \<lparr>q_id = Fin 1, q_type = MCQ, q_question = ''Pick one'',
                   q_options = Some [JStr ''A'', JStr ''B'', JStr ''C'', JStr ''D''],
                   q_answer = None, q_marks = Some (Fin 1),
                   q_topic = Some ''operating_systems'', q_explanation = None\<rparr>"

definition keyless_db :: database where
  "keyless_db = fst (createAttempt (Some 7) empty_db [keyless_mcq] 100)"

text \<open>An attempt whose topics are named \<^verbatim>\<open>2\<close> and \<^verbatim>\<open>1\<close>, in this order.\<close>

definition numbered_first :: question where
  "numbered_first = \<lparr>q_id = Fin 1, q_type = MCQ, q_question = ''Pick one'',
                  q_options = Some [JStr ''A'', JStr ''B'', JStr ''C'', JStr ''D''],
                  q_answer = Some (ANum (Fin 2)), q_marks = Some (Fin 1),
                  q_topic = Some ''2'', q_explanation = None\<rparr>"

definition numbered_second :: question where
  "numbered_second = \<lparr>q_id = Fin 2, q_type = NAT, q_question = ''Compute'',
                  q_options = None, q_answer = Some (ANum (Fin 12)), q_marks = Some (Fin 2),
                  q_topic = Some ''1'', q_explanation = None\<rparr>"

definition numbered_db :: database where
  "numbered_db = fst (createAttempt (Some 7) empty_db [numbered_first, numbered_second] 100)"

text \<open>An attempt whose only topic is named like a property of \<^verbatim>\<open>Object.prototype\<close>.\<close>

definition inherited_question :: question where
  "inherited_question = \<lparr>q_id = Fin 1, q_type = MCQ, q_question = ''Pick one'',
                  q_options = Some [JStr ''A'', JStr ''B'', JStr ''C'', JStr ''D''],
                  q_answer = Some (ANum (Fin 2)), q_marks = Some (Fin 1),
                  q_topic = Some ''constructor'', q_explanation = None\<rparr>"

definition inherited_db :: database where
  "inherited_db = fst (createAttempt (Some 7) empty_db [inherited_question] 100)"

text \<open>What the submission of the sample attempt with no answers returns.\<close>

definition blank_result :: submit_result where
  "blank_result =
     \<lparr>r_score = 0, r_total = 2, r_weakTopics = [''operating_systems'', ''linear_algebra''],
      r_suggestions =
        [''Focus next: operating systems, linear algebra'',
         ''Review basics first: definitions, standard formulas, and canonical properties.'',
         ''Practice 10 targeted problems per weak topic and redo similar questions.'',
         ''Reattempt a shorter mock to validate improvements.''],
      r_mistakes =
        [\<lparr>m_id = Fin 1, m_topic = ''operating_systems'', m_correct = ''2'', m_yours = ''blank''\<rparr>,
         \<lparr>m_id = Fin 2, m_topic = ''linear_algebra'', m_correct = ''12'', m_yours = ''blank''\<rparr>]\<rparr>"

text \<open>Key configurations, requests and provider behaviours.\<close>

definition no_keys :: config where
  "no_keys = \<lparr>anthropicKey = [], openrouterKey = []\<rparr>"

definition anthropic_only :: config where
  "anthropic_only = \<lparr>anthropicKey = ''key-a'', openrouterKey = []\<rparr>"

definition openrouter_only :: config where
  "openrouter_only = \<lparr>anthropicKey = [], openrouterKey = ''key-o''\<rparr>"

definition both_keys :: config where
  "both_keys = \<lparr>anthropicKey = ''key-a'', openrouterKey = ''key-o''\<rparr>"

definition three_plain :: args where
  "three_plain = \<lparr>subjectMix = None, numQuestions = Some (Fin 3), difficulty = None,
                   includeExplanations = Some False\<rparr>"

definition unreachable :: providers where
  "unreachable = (\<lambda>k c. Failure)"

definition empty_array_reply :: providers where
  "empty_array_reply = (\<lambda>k c. Content ''[]'')"

definition explanation_reply :: providers where
  "explanation_reply = (\<lambda>k c. Content sample_text)"

definition no_explanations :: args where
  "no_explanations = \<lparr>subjectMix = None, numQuestions = None, difficulty = None,
                       includeExplanations = Some False\<rparr>"

section \<open>Grading: what the loop computes\<close>

lemmas attempt_eval =
  submitAttempt_def createAttempt_def empty_db_def grade_def grade_question_def Let_def
  init_topic_def add_total_def add_wrong_def topic_of_def userAns_of_def is_correct_def
  mistake_of_def yours_string_def correctIndex_def to_number_def answer_string_def
  object_prototype_names_def weakTopics_of_def Object_entries_def suggestions_of_def
  generic_suggestions_def spaced_def is_array_index_def is_digit_def digits_value_def
  sample_builtins_def sample_mcq_def sample_nat_def tolerance_def


lemma grade_fold_score:
  "g_score (foldl (grade_question bi answers) g qs) =
     g_score g + length (filter (\<lambda>q. is_correct bi q (userAns_of bi answers q)) qs)"
  by (induction qs arbitrary: g) (simp_all add: grade_question_def Let_def)

lemma grade_fold_mistakes:
  "g_mistakes (foldl (grade_question bi answers) g qs) =
     g_mistakes g @ map (\<lambda>q. mistake_of bi q (userAns_of bi answers q))
                      (filter (\<lambda>q. \<not> is_correct bi q (userAns_of bi answers q)) qs)"
  by (induction qs arbitrary: g) (simp_all add: grade_question_def Let_def)

lemma grade_score:
  "g_score (grade bi answers qs) =
     length (filter (\<lambda>q. is_correct bi q (userAns_of bi answers q)) qs)"
  by (simp add: grade_def grade_fold_score)

lemma grade_mistakes:
  "g_mistakes (grade bi answers qs) =
     map (\<lambda>q. mistake_of bi q (userAns_of bi answers q))
       (filter (\<lambda>q. \<not> is_correct bi q (userAns_of bi answers q)) qs)"
  by (simp add: grade_def grade_fold_mistakes)

lemma below_tolerance: "js_lt (js_abs d) (Fin tolerance) = (\<exists>z. d = Fin z \<and> \<bar>z\<bar> < tolerance)"
  by (cases d) simp_all

lemma nat_correct_iff:
  "(\<not> js_isNaN c \<and> \<not> js_isNaN u \<and> js_lt (js_abs (js_sub bi u c)) (Fin tolerance)) =
   (\<exists>x y z. c = Fin x \<and> u = Fin y \<and> num_sub bi y x = Fin z \<and> \<bar>z\<bar> < tolerance)"
  by (cases c; cases u) (simp_all add: below_tolerance)

section \<open>Submission: guards and result\<close>

lemma submit_open:
  assumes "examAttempts db aid = Some att" "a_userId att = uid" "\<not> a_completed att"
  shows "snd (submitAttempt bi (Some uid) db aid answers d now) =
           Inr \<lparr>r_score = g_score (grade bi answers (a_questions att)),
                r_total = length (a_questions att),
                r_weakTopics = weakTopics_of (g_topicStats (grade bi answers (a_questions att))),
                r_suggestions =
                  suggestions_of (weakTopics_of (g_topicStats (grade bi answers (a_questions att)))),
                r_mistakes = g_mistakes (grade bi answers (a_questions att))\<rparr>"
  using assms by (simp add: submitAttempt_def Let_def)

lemma submit_Inr:
  assumes "submitAttempt bi user db aid answers d now = (db', Inr r)"
  shows "\<exists>uid att. user = Some uid \<and> examAttempts db aid = Some att \<and> a_userId att = uid
           \<and> \<not> a_completed att
           \<and> examAttempts db' aid =
               Some (att\<lparr>a_answers := answers, a_score := r_score r,
                         a_durationSec := js_max (Fin 0) (js_floor d),
                         a_weakTopics := r_weakTopics r, a_suggestions := r_suggestions r,
                         a_completed := True, a_submittedAt := Some now\<rparr>)"
  using assms by (auto simp add: submitAttempt_def Let_def split: option.splits if_splits)

lemma sample_db_0:
  "examAttempts sample_db 0 =
     Some \<lparr>a_userId = 7, a_questions = [sample_mcq, sample_nat], a_answers = Map.empty,
           a_score = 0, a_total = 2, a_durationSec = Fin 0,
           a_weakTopics = [], a_suggestions = [], a_completed = False,
           a_startedAt = 100, a_submittedAt = None\<rparr>"
  by (simp add: sample_db_def createAttempt_def empty_db_def Let_def)

lemma sample_db_1: "examAttempts sample_db 1 = None"
  by (simp add: sample_db_def createAttempt_def empty_db_def Let_def)

lemma submitted_db_0:
  "\<exists>att. examAttempts submitted_db 0 = Some att \<and> a_userId att = 7 \<and> a_completed att"
  by (simp add: submitted_db_def submitAttempt_def sample_db_0 Let_def)

text \<open>
  C5. For a signed-in caller, \<^verbatim>\<open>submitAttempt\<close> checks existence, then ownership, then
  state: an unknown attempt is not-found; an attempt of another owner is not-authorized,
  whatever its state; an own attempt already completed is the already-submitted
  conflict. After a successful submission every further submission of the same attempt
  by its owner fails with that conflict, and a call that fails, with whatever error,
  returns the database it was given: nothing is written.
\<close>

theorem submitAttempt_guard_order:
  "(examAttempts db aid = None \<longrightarrow>
      submitAttempt bi (Some uid) db aid answers d now = (db, Inl NotFound))
   \<and> (\<forall>att. examAttempts db aid = Some att \<and> a_userId att \<noteq> uid \<longrightarrow>
      submitAttempt bi (Some uid) db aid answers d now = (db, Inl NotAuthorized))
   \<and> (\<forall>att. examAttempts db aid = Some att \<and> a_userId att = uid \<and> a_completed att \<longrightarrow>
      submitAttempt bi (Some uid) db aid answers d now = (db, Inl AlreadySubmitted))
   \<and> (\<forall>db' r. submitAttempt bi (Some uid) db aid answers d now = (db', Inr r) \<longrightarrow>
      (\<forall>answers' d' now'.
         submitAttempt bi (Some uid) db' aid answers' d' now' = (db', Inl AlreadySubmitted)))
   \<and> (\<forall>db' e. submitAttempt bi user db aid answers d now = (db', Inl e) \<longrightarrow> db' = db)"
proof (intro conjI allI impI)
  fix db' r answers' d' now'
  assume "submitAttempt bi (Some uid) db aid answers d now = (db', Inr r)"
  from submit_Inr [OF this] obtain att' where
    "examAttempts db' aid = Some att'" "a_userId att' = uid" "a_completed att'"
    by auto
  then show "submitAttempt bi (Some uid) db' aid answers' d' now' = (db', Inl AlreadySubmitted)"
    by (simp add: submitAttempt_def)
next
  fix db' e
  assume "submitAttempt bi user db aid answers d now = (db', Inl e)"
  then show "db' = db"
    by (auto simp add: submitAttempt_def Let_def split: option.splits if_splits)
qed (simp_all add: submitAttempt_def)

theorem submitAttempt_guard_order_witness:
  "submitAttempt sample_builtins (Some 7) sample_db 1 Map.empty (Fin 30) 200
     = (sample_db, Inl NotFound)
   \<and> submitAttempt sample_builtins (Some 8) sample_db 0 Map.empty (Fin 30) 200
     = (sample_db, Inl NotAuthorized)
   \<and> submitAttempt sample_builtins (Some 8) submitted_db 0 Map.empty (Fin 30) 300
     = (submitted_db, Inl NotAuthorized)
   \<and> submitAttempt sample_builtins (Some 7) submitted_db 0 Map.empty (Fin 30) 300
     = (submitted_db, Inl AlreadySubmitted)"
proof -
  obtain r where s:
    "submitAttempt sample_builtins (Some 7) sample_db 0 Map.empty (Fin 30) 200 = (submitted_db, Inr r)"
    by (simp add: submitted_db_def submitAttempt_def sample_db_0 Let_def)
  obtain att' where a:
    "examAttempts submitted_db 0 = Some att'" "a_userId att' = 7" "a_completed att'"
    using submitted_db_0 by auto
  have n8: "a_userId att' \<noteq> 8" using a by simp
  note t1 = submitAttempt_guard_order
    [of sample_db 1 sample_builtins 7 Map.empty "Fin 30" 200 "Some 7"]
  note t2 = submitAttempt_guard_order
    [of sample_db 0 sample_builtins 8 Map.empty "Fin 30" 200 "Some 8"]
  note t3 = submitAttempt_guard_order
    [of sample_db 0 sample_builtins 7 Map.empty "Fin 30" 200 "Some 7"]
  note t4 = submitAttempt_guard_order
    [of submitted_db 0 sample_builtins 8 Map.empty "Fin 30" 300 "Some 8"]
  have "submitAttempt sample_builtins (Some 7) sample_db 1 Map.empty (Fin 30) 200
          = (sample_db, Inl NotFound)"
    using t1 sample_db_1 by blast
  moreover have "submitAttempt sample_builtins (Some 8) sample_db 0 Map.empty (Fin 30) 200
          = (sample_db, Inl NotAuthorized)"
    using t2 sample_db_0 by simp
  moreover have "submitAttempt sample_builtins (Some 8) submitted_db 0 Map.empty (Fin 30) 300
          = (submitted_db, Inl NotAuthorized)"
    using t4 a n8 by blast
  moreover have "submitAttempt sample_builtins (Some 7) submitted_db 0 Map.empty (Fin 30) 300
          = (submitted_db, Inl AlreadySubmitted)"
    using t3 s by blast
  ultimately show ?thesis by blast
qed

section \<open>Creating an attempt\<close>

text \<open>
  C9, as the code has it. \<^verbatim>\<open>createAttempt\<close> has no guard on the questions: for a
  signed-in caller every sequence, the empty one included, is accepted, and the stored
  attempt is open (not completed, no submission time), belongs to the caller, holds the
  questions as given, and has \<^verbatim>\<open>total\<close> equal to their number, score 0 and no answers.
  The only rejection is that of a caller who is not signed in.
\<close>

theorem createAttempt_open:
  "(\<exists>db' att. createAttempt (Some uid) db questions now = (db', Inr (next_id db))
       \<and> examAttempts db' (next_id db) = Some att
       \<and> a_userId att = uid \<and> a_questions att = questions
       \<and> a_completed att = False \<and> a_submittedAt att = None
       \<and> a_total att = length questions \<and> a_score att = 0 \<and> a_answers att = Map.empty)
   \<and> createAttempt None db questions now = (db, Inl NotAuthenticated)"
  by (simp add: createAttempt_def Let_def)

text \<open>The claim as stated fails: the empty sequence is accepted, with \<^verbatim>\<open>total\<close> 0.\<close>

theorem createAttempt_empty_counterexample:
  "createAttempt (Some 7) empty_db [] 100 =
     (\<lparr>next_id = 1,
       examAttempts = [0 \<mapsto> \<lparr>a_userId = 7, a_questions = [], a_answers = Map.empty,
           a_score = 0, a_total = 0, a_durationSec = Fin 0,
           a_weakTopics = [], a_suggestions = [], a_completed = False,
           a_startedAt = 100, a_submittedAt = None\<rparr>]\<rparr>, Inr 0)"
  by (simp add: createAttempt_def empty_db_def Let_def)

section \<open>Every question is counted once\<close>

text \<open>
  The claim C10 as stated fails on an attempt whose questions share an identifier,
  which \<^verbatim>\<open>createAttempt\<close> accepts: both entries of the mistakes list carry it.
\<close>

theorem mistakes_twin_counterexample:
  "snd (submitAttempt sample_builtins (Some 7) twin_db 0 Map.empty (Fin 30) 200) =
   Inr \<lparr>r_score = 0, r_total = 2, r_weakTopics = [''operating_systems''],
        r_suggestions =
          [''Focus next: operating systems'',
           ''Review basics first: definitions, standard formulas, and canonical properties.'',
           ''Practice 10 targeted problems per weak topic and redo similar questions.'',
           ''Reattempt a shorter mock to validate improvements.''],
        r_mistakes =
          [\<lparr>m_id = Fin 1, m_topic = ''operating_systems'', m_correct = ''2'', m_yours = ''blank''\<rparr>,
           \<lparr>m_id = Fin 1, m_topic = ''operating_systems'', m_correct = ''2'', m_yours = ''blank''\<rparr>]\<rparr>"
  by (simp add: twin_db_def attempt_eval)

text \<open>
  C10, as the code has it. After a successful submission the score and the number of
  mistakes add up to the number of questions of the attempt, which is also the total
  returned; and when the identifiers of the questions are pairwise distinct, so are
  the identifiers in the mistakes list.
\<close>

theorem submission_counts:
  "submitAttempt bi user db aid answers d now = (db', Inr r) \<Longrightarrow>
   examAttempts db aid = Some att \<Longrightarrow>
     r_score r + length (r_mistakes r) = length (a_questions att)
     \<and> r_total r = length (a_questions att)
     \<and> (distinct (map q_id (a_questions att)) \<longrightarrow> distinct (map m_id (r_mistakes r)))"
proof -
  assume s: "submitAttempt bi user db aid answers d now = (db', Inr r)"
    and a: "examAttempts db aid = Some att"
  from submit_Inr [OF s] a obtain uid where
    u: "user = Some uid" "a_userId att = uid" "\<not> a_completed att" by auto
  from submit_open [OF a u(2) u(3), of bi answers d now] s u(1)
  have r: "r = \<lparr>r_score = g_score (grade bi answers (a_questions att)),
                r_total = length (a_questions att),
                r_weakTopics = weakTopics_of (g_topicStats (grade bi answers (a_questions att))),
                r_suggestions =
                  suggestions_of (weakTopics_of (g_topicStats (grade bi answers (a_questions att)))),
                r_mistakes = g_mistakes (grade bi answers (a_questions att))\<rparr>"
    by simp
  have ids: "map m_id (r_mistakes r) =
      map q_id (filter (\<lambda>q. \<not> is_correct bi q (userAns_of bi answers q)) (a_questions att))"
    by (simp add: r grade_mistakes mistake_of_def)
  have "r_score r + length (r_mistakes r) = length (a_questions att)"
    by (simp add: r grade_score grade_mistakes sum_length_filter_compl)
  moreover have "r_total r = length (a_questions att)" by (simp add: r)
  moreover have "distinct (map q_id (a_questions att)) \<longrightarrow> distinct (map m_id (r_mistakes r))"
    unfolding ids by (simp add: distinct_map_filter)
  ultimately show ?thesis by blast
qed

theorem submission_counts_witness:
  "r_score (projr (snd (submitAttempt sample_builtins (Some 7) sample_db 0 Map.empty (Fin 30) 200)))
     + length (r_mistakes (projr (snd (submitAttempt sample_builtins (Some 7) sample_db 0 Map.empty (Fin 30) 200))))
     = 2
   \<and> distinct (map q_id [sample_mcq, sample_nat])
   \<and> distinct (map m_id (r_mistakes (projr (snd (submitAttempt sample_builtins (Some 7) sample_db 0 Map.empty (Fin 30) 200)))))"
proof -
  obtain r where s:
    "submitAttempt sample_builtins (Some 7) sample_db 0 Map.empty (Fin 30) 200 = (submitted_db, Inr r)"
    by (simp add: submitted_db_def submitAttempt_def sample_db_0 Let_def)
  have d: "distinct (map q_id [sample_mcq, sample_nat])"
    by (simp add: sample_mcq_def sample_nat_def)
  from submission_counts [OF s sample_db_0] d s show ?thesis by simp
qed

section \<open>Scoring rules\<close>

lemma mcq_rule:
  "q_type q = MCQ \<Longrightarrow>
     is_correct bi q ua =
       (\<exists>u. ua = Some (ANum u)
            \<and> js_eq u (case q_answer q of Some (ANum c) \<Rightarrow> c | _ \<Rightarrow> Fin (- 1)))"
  by (auto simp add: is_correct_def correctIndex_def split: option.splits answer.splits)

lemma nat_rule:
  "q_type q = NAT \<Longrightarrow>
     is_correct bi q ua =
       (\<exists>c u d. to_number bi (q_answer q) = Fin c \<and> to_number bi ua = Fin u
                \<and> num_sub bi u c = Fin d \<and> \<bar>d\<bar> < tolerance)"
  by (simp add: is_correct_def Let_def nat_correct_iff)

lemma absent_incorrect: "\<not> is_correct bi q None"
  by (cases "q_type q") (simp_all add: is_correct_def to_number_def Let_def)

lemma text_for_mcq_incorrect: "q_type q = MCQ \<Longrightarrow> \<not> is_correct bi q (Some (AStr s))"
  by (simp add: is_correct_def)

lemma nan_for_nat_incorrect: "q_type q = NAT \<Longrightarrow> js_isNaN (to_number bi ua) \<Longrightarrow> \<not> is_correct bi q ua"
  by (simp add: is_correct_def Let_def)

text \<open>
  C4, as the code has it. A multiple-choice question is correct iff the submitted value
  is a number strictly equal to the correct index, which is the stored answer when that
  is a number and -1 otherwise. A numeric-answer question is correct iff the stored
  answer and the submitted value both coerce to finite numbers and their difference, as
  the subtraction of doubles gives it, is finite and in absolute value below the double
  0.01. An absent submission, a text submitted for a multiple-choice question and a
  submission that coerces to \<^verbatim>\<open>NaN\<close> are incorrect. The submission of an open attempt by
  its owner always succeeds; its score is the number of correct questions, at most the
  number of questions; the mistakes are the other questions in order; and an
  unanswered question appears among them with \<^verbatim>\<open>yours\<close> equal to \<^verbatim>\<open>blank\<close>.
\<close>

theorem scoring_rules:
  "(q_type q = MCQ \<longrightarrow>
      is_correct bi q ua =
        (\<exists>u. ua = Some (ANum u)
             \<and> js_eq u (case q_answer q of Some (ANum c) \<Rightarrow> c | _ \<Rightarrow> Fin (- 1))))
   \<and> (q_type q = NAT \<longrightarrow>
      is_correct bi q ua =
        (\<exists>c u d. to_number bi (q_answer q) = Fin c \<and> to_number bi ua = Fin u
               \<and> num_sub bi u c = Fin d \<and> \<bar>d\<bar> < tolerance))
   \<and> (ua = None \<longrightarrow> \<not> is_correct bi q ua)
   \<and> (q_type q = MCQ \<and> (\<exists>s. ua = Some (AStr s)) \<longrightarrow> \<not> is_correct bi q ua)
   \<and> (q_type q = NAT \<and> js_isNaN (to_number bi ua) \<longrightarrow> \<not> is_correct bi q ua)
   \<and> (\<forall>att. examAttempts db aid = Some att \<and> a_userId att = uid \<and> \<not> a_completed att \<longrightarrow>
        (\<exists>db' r. submitAttempt bi (Some uid) db aid answers d now = (db', Inr r)
           \<and> r_score r =
               length (filter (\<lambda>q. is_correct bi q (userAns_of bi answers q)) (a_questions att))
           \<and> r_score r \<le> length (a_questions att)
           \<and> r_total r = length (a_questions att)
           \<and> r_mistakes r =
               map (\<lambda>q. mistake_of bi q (userAns_of bi answers q))
                 (filter (\<lambda>q. \<not> is_correct bi q (userAns_of bi answers q)) (a_questions att))
           \<and> (\<forall>q \<in> set (a_questions att). userAns_of bi answers q = None \<longrightarrow>
                 (\<exists>m \<in> set (r_mistakes r). m_id m = q_id q \<and> m_yours m = ''blank''))
           \<and> (\<forall>m \<in> set (r_mistakes r).
                 answers (num_to_string bi (m_id m)) = None \<longrightarrow> m_yours m = ''blank'')))"
proof (intro conjI allI impI)
  fix att
  assume h: "examAttempts db aid = Some att \<and> a_userId att = uid \<and> \<not> a_completed att"
  let ?qs = "a_questions att"
  let ?ok = "\<lambda>q. is_correct bi q (userAns_of bi answers q)"
  let ?mk = "\<lambda>q. mistake_of bi q (userAns_of bi answers q)"
  obtain db' r where s: "submitAttempt bi (Some uid) db aid answers d now = (db', r)"
    by (cases "submitAttempt bi (Some uid) db aid answers d now") blast
  from h have "snd (submitAttempt bi (Some uid) db aid answers d now) =
           Inr \<lparr>r_score = g_score (grade bi answers ?qs), r_total = length ?qs,
                r_weakTopics = weakTopics_of (g_topicStats (grade bi answers ?qs)),
                r_suggestions = suggestions_of (weakTopics_of (g_topicStats (grade bi answers ?qs))),
                r_mistakes = g_mistakes (grade bi answers ?qs)\<rparr>"
    by (intro submit_open) simp_all
  with s obtain r' where r: "r = Inr r'" "r_score r' = length (filter ?ok ?qs)"
    "r_total r' = length ?qs" "r_mistakes r' = map ?mk (filter (\<lambda>q. \<not> ?ok q) ?qs)"
    by (simp add: grade_score grade_mistakes)
  have blank1: "\<forall>q \<in> set ?qs. userAns_of bi answers q = None \<longrightarrow>
                 (\<exists>m \<in> set (r_mistakes r'). m_id m = q_id q \<and> m_yours m = ''blank'')"
  proof (intro ballI impI)
    fix q assume q: "q \<in> set ?qs" "userAns_of bi answers q = None"
    from q(2) have nok: "\<not> ?ok q" by (simp add: absent_incorrect)
    have "?mk q \<in> set (r_mistakes r')" using q(1) nok unfolding r(4) by auto
    moreover have "m_id (?mk q) = q_id q \<and> m_yours (?mk q) = ''blank''"
      using q by (simp add: mistake_of_def yours_string_def)
    ultimately show "\<exists>m \<in> set (r_mistakes r'). m_id m = q_id q \<and> m_yours m = ''blank''"
      by blast
  qed
  have blank2: "\<forall>m \<in> set (r_mistakes r').
                 answers (num_to_string bi (m_id m)) = None \<longrightarrow> m_yours m = ''blank''"
    by (auto simp add: r mistake_of_def yours_string_def userAns_of_def)
  show "\<exists>db' r. submitAttempt bi (Some uid) db aid answers d now = (db', Inr r)
           \<and> r_score r = length (filter ?ok ?qs)
           \<and> r_score r \<le> length ?qs
           \<and> r_total r = length ?qs
           \<and> r_mistakes r = map ?mk (filter (\<lambda>q. \<not> ?ok q) ?qs)
           \<and> (\<forall>q \<in> set ?qs. userAns_of bi answers q = None \<longrightarrow>
                 (\<exists>m \<in> set (r_mistakes r). m_id m = q_id q \<and> m_yours m = ''blank''))
           \<and> (\<forall>m \<in> set (r_mistakes r).
                 answers (num_to_string bi (m_id m)) = None \<longrightarrow> m_yours m = ''blank'')"
  proof (intro exI conjI)
    show "submitAttempt bi (Some uid) db aid answers d now = (db', Inr r')"
      using s r(1) by simp
    show "r_score r' \<le> length ?qs" unfolding r(2) by (rule length_filter_le)
  qed (rule r(2) r(3) r(4) blank1 blank2)+
qed (simp_all add: mcq_rule nat_rule absent_incorrect nan_for_nat_incorrect, auto simp add: text_for_mcq_incorrect)

text \<open>
  The claim as stated fails where no correct index is stored: the question is graded
  against -1, and a submitted -1 is scored correct.
\<close>

theorem keyless_counterexample:
  "q_answer keyless_mcq = None \<and>
   snd (submitAttempt sample_builtins (Some 7) keyless_db 0 [''1'' \<mapsto> ANum (Fin (- 1))] (Fin 30) 200) =
   Inr \<lparr>r_score = 1, r_total = 1, r_weakTopics = [],
        r_suggestions =
          [''Review basics first: definitions, standard formulas, and canonical properties.'',
           ''Practice 10 targeted problems per weak topic and redo similar questions.'',
           ''Reattempt a shorter mock to validate improvements.''],
        r_mistakes = []\<rparr>"
  by (simp add: keyless_db_def keyless_mcq_def attempt_eval)

text \<open>The two end-to-end examples, and the rules on single answers.\<close>

theorem scoring_rules_witness:
  "is_correct sample_builtins sample_mcq (Some (ANum (Fin 2)))
   \<and> \<not> is_correct sample_builtins sample_mcq (Some (ANum (Fin 0)))
   \<and> \<not> is_correct sample_builtins sample_mcq (Some (AStr ''2''))
   \<and> is_correct sample_builtins sample_nat (Some (ANum (Fin (1535 / 128))))
   \<and> is_correct sample_builtins sample_nat (Some (AStr ''12''))
   \<and> \<not> is_correct sample_builtins sample_nat (Some (AStr ''twelve''))
   \<and> \<not> is_correct sample_builtins sample_nat None
   \<and> snd (submitAttempt sample_builtins (Some 7) sample_db 0 sample_answers (Fin 30) 200) =
       Inr \<lparr>r_score = 2, r_total = 2, r_weakTopics = [],
        r_suggestions =
          [''Review basics first: definitions, standard formulas, and canonical properties.'',
           ''Practice 10 targeted problems per weak topic and redo similar questions.'',
           ''Reattempt a shorter mock to validate improvements.''],
        r_mistakes = []\<rparr>
   \<and> map m_yours (r_mistakes (projr (snd (submitAttempt sample_builtins (Some 7) sample_db 0
        [''1'' \<mapsto> ANum (Fin 0)] (Fin 30) 200)))) = [''0'', ''blank'']"
proof -
  have m: "q_type sample_mcq = MCQ" and n: "q_type sample_nat = NAT"
    by (simp_all add: sample_mcq_def sample_nat_def)
  note mcq = scoring_rules [of sample_mcq sample_builtins _ sample_db 0 7 sample_answers "Fin 30" 200]
  note nat = scoring_rules [of sample_nat sample_builtins _ sample_db 0 7 "[''1'' \<mapsto> ANum (Fin 0)]" "Fin 30" 200]
  have c1: "is_correct sample_builtins sample_mcq (Some (ANum (Fin 2)))"
    using mcq [of "Some (ANum (Fin 2))"] m by (simp add: sample_mcq_def)
  have c2: "\<not> is_correct sample_builtins sample_mcq (Some (ANum (Fin 0)))"
    using mcq [of "Some (ANum (Fin 0))"] m by (simp add: sample_mcq_def)
  have c3: "\<not> is_correct sample_builtins sample_mcq (Some (AStr ''2''))"
    using mcq [of "Some (AStr ''2'')"] m by simp
  have c4: "is_correct sample_builtins sample_nat (Some (ANum (Fin (1535 / 128))))"
  proof -
    from nat [of "Some (ANum (Fin (1535 / 128)))"] n
    have e: "is_correct sample_builtins sample_nat (Some (ANum (Fin (1535 / 128)))) =
       (\<exists>c u d. to_number sample_builtins (q_answer sample_nat) = Fin c
          \<and> to_number sample_builtins (Some (ANum (Fin (1535 / 128)))) = Fin u
          \<and> num_sub sample_builtins u c = Fin d \<and> \<bar>d\<bar> < tolerance)" by blast
    show ?thesis unfolding e
      by (rule exI [of _ 12], rule exI [of _ "1535 / 128"], rule exI [of _ "- (1 / 128)"])
         (simp add: sample_nat_def to_number_def sample_builtins_def tolerance_def)
  qed
  have c5: "is_correct sample_builtins sample_nat (Some (AStr ''12''))"
  proof -
    from nat [of "Some (AStr ''12'')"] n
    have e: "is_correct sample_builtins sample_nat (Some (AStr ''12'')) =
       (\<exists>c u d. to_number sample_builtins (q_answer sample_nat) = Fin c
          \<and> to_number sample_builtins (Some (AStr ''12'')) = Fin u
          \<and> num_sub sample_builtins u c = Fin d \<and> \<bar>d\<bar> < tolerance)" by blast
    show ?thesis unfolding e
      by (rule exI [of _ 12], rule exI [of _ 12], rule exI [of _ 0])
         (simp add: sample_nat_def to_number_def sample_builtins_def tolerance_def)
  qed
  have c6: "\<not> is_correct sample_builtins sample_nat (Some (AStr ''twelve''))"
  proof -
    have "js_isNaN (to_number sample_builtins (Some (AStr ''twelve'')))"
      by (simp add: to_number_def sample_builtins_def)
    with nat [of "Some (AStr ''twelve'')"] n show ?thesis by blast
  qed
  have c7: "\<not> is_correct sample_builtins sample_nat None"
    using nat [of None] by simp
  have c8: "snd (submitAttempt sample_builtins (Some 7) sample_db 0 sample_answers (Fin 30) 200) =
       Inr \<lparr>r_score = 2, r_total = 2, r_weakTopics = [],
        r_suggestions =
          [''Review basics first: definitions, standard formulas, and canonical properties.'',
           ''Practice 10 targeted problems per weak topic and redo similar questions.'',
           ''Reattempt a shorter mock to validate improvements.''],
        r_mistakes = []\<rparr>"
    by (simp add: sample_db_def sample_answers_def attempt_eval)
  have c9: "map m_yours (r_mistakes (projr (snd (submitAttempt sample_builtins (Some 7) sample_db 0
        [''1'' \<mapsto> ANum (Fin 0)] (Fin 30) 200)))) = [''0'', ''blank'']"
    by (simp add: sample_db_def attempt_eval)
  from c1 c2 c3 c4 c5 c6 c7 c8 c9 show ?thesis by blast
qed


section \<open>Guidance\<close>

lemma set_first_seen [simp]: "set (first_seen xs) = set xs"
  by (induction xs) auto

lemma distinct_first_seen [simp]: "distinct (first_seen xs)"
  by (induction xs) (auto simp add: distinct_removeAll)

lemma first_seen_snoc:
  "first_seen (xs @ [x]) = (if x \<in> set xs then first_seen xs else first_seen xs @ [x])"
  by (induction xs) auto

lemma insort_key_map:
  "insort_key k (f x) (map f xs) = map f (insort_key (\<lambda>a. k (f a)) x xs)"
  by (induction xs) simp_all

lemma sort_key_map: "sort_key k (map f xs) = map f (sort_key (\<lambda>a. k (f a)) xs)"
  by (induction xs) (simp_all add: insort_key_map)

lemma grade_snoc:
  "grade bi answers (qs @ [q]) = grade_question bi answers (grade bi answers qs) q"
  by (simp add: grade_def)

lemma add_total_map:
  "add_total (map (\<lambda>t. (t, f t, g t)) L) x = map (\<lambda>t. (t, if t = x then f t + 1 else f t, g t)) L"
  by (simp add: add_total_def)

lemma add_wrong_map:
  "add_wrong (map (\<lambda>t. (t, f t, g t)) L) x = map (\<lambda>t. (t, f t, if t = x then g t + 1 else g t)) L"
  by (simp add: add_wrong_def)

lemma stats_of_grade:
  assumes "\<forall>q \<in> set qs. topic_of q \<notin> set object_prototype_names"
  shows "g_topicStats (grade bi answers qs) =
           map (\<lambda>t. (t, ask_count qs t, miss_count bi answers qs t)) (first_seen (map topic_of qs))"
  using assms
proof (induction qs rule: rev_induct)
  case Nil
  show ?case by (simp add: grade_def)
next
  case (snoc q qs)
  let ?L = "first_seen (map topic_of qs)"
  let ?t = "topic_of q"
  have np: "?t \<notin> set object_prototype_names" using snoc.prems by simp
  have ih: "g_topicStats (grade bi answers qs) =
           map (\<lambda>t. (t, ask_count qs t, miss_count bi answers qs t)) ?L"
    using snoc by simp
  have keys: "fst ` set (g_topicStats (grade bi answers qs)) = topic_of ` set qs"
    unfolding ih by (auto simp add: image_iff)
  have fresh: "?t \<notin> topic_of ` set qs \<Longrightarrow> ask_count qs ?t = 0 \<and> miss_count bi answers qs ?t = 0"
  proof -
    assume "?t \<notin> topic_of ` set qs"
    then have "\<forall>x \<in> set qs. topic_of x \<noteq> ?t" by (metis imageI)
    then show ?thesis by (simp add: ask_count_def miss_count_def filter_empty_conv)
  qed
  have init: "init_topic (g_topicStats (grade bi answers qs)) ?t =
      map (\<lambda>t. (t, ask_count qs t, miss_count bi answers qs t)) (first_seen (map topic_of (qs @ [q])))"
  proof (cases "?t \<in> topic_of ` set qs")
    case True
    then show ?thesis using keys by (simp add: init_topic_def first_seen_snoc ih)
  next
    case False
    then show ?thesis using keys np fresh by (simp add: init_topic_def first_seen_snoc ih)
  qed
  have ask: "\<And>t. (if t = ?t then ask_count qs t + 1 else ask_count qs t) = ask_count (qs @ [q]) t"
    by (simp add: ask_count_def)
  show ?case
  proof (cases "is_correct bi q (userAns_of bi answers q)")
    case True
    then have m: "\<And>t. miss_count bi answers (qs @ [q]) t = miss_count bi answers qs t"
      by (simp add: miss_count_def missed_def)
    show ?thesis
      unfolding grade_snoc using True
      by (simp add: grade_question_def Let_def init [simplified] add_total_map ask m)
  next
    case False
    then have m: "\<And>t. (if t = ?t then miss_count bi answers qs t + 1 else miss_count bi answers qs t)
          = miss_count bi answers (qs @ [q]) t"
      by (simp add: miss_count_def missed_def)
    show ?thesis
      unfolding grade_snoc using False
      by (simp add: grade_question_def Let_def init [simplified] add_total_map add_wrong_map ask m)
  qed
qed


lemma set_key_order [simp]: "set (key_order L) = set L"
  by (auto simp add: key_order_def)

lemma distinct_key_order: "distinct L \<Longrightarrow> distinct (key_order L)"
  by (auto simp add: key_order_def)

lemma key_order_plain: "\<forall>t \<in> set L. \<not> is_array_index t \<Longrightarrow> key_order L = L"
  by (simp add: key_order_def filter_empty_conv filter_id_conv)

lemma Object_entries_map:
  "Object_entries (map (\<lambda>t. (t, f t, g t)) L) = map (\<lambda>t. (t, f t, g t)) (key_order L)"
  by (simp add: Object_entries_def key_order_def filter_map sort_key_map comp_def)

lemma weakTopics_tracked:
  assumes "\<forall>q \<in> set qs. topic_of q \<notin> set object_prototype_names"
  shows "weakTopics_of (g_topicStats (grade bi answers qs)) =
           take 4 (sort_key (\<lambda>t. - int (miss_count bi answers qs t))
                     (filter (\<lambda>t. 0 < miss_count bi answers qs t)
                        (key_order (first_seen (map topic_of qs)))))"
proof -
  let ?F = "\<lambda>t. (t, ask_count qs t, miss_count bi answers qs t)"
  let ?L = "first_seen (map topic_of qs)"
  have st: "g_topicStats (grade bi answers qs) = map ?F ?L"
    using assms by (rule stats_of_grade)
  show ?thesis
    unfolding weakTopics_of_def st Object_entries_map
    by (simp add: filter_map sort_key_map comp_def)
qed

lemma ranking_properties:
  fixes m :: "'a \<Rightarrow> nat"
  assumes "distinct L"
  defines "ranked \<equiv> sort_key (\<lambda>t. - int (m t)) (filter (\<lambda>t. 0 < m t) L)"
  shows "distinct ranked"
    and "set ranked = {t \<in> set L. 0 < m t}"
    and "sorted_wrt (\<lambda>a b. m b \<le> m a) ranked"
    and "\<forall>k. 0 < k \<longrightarrow> filter (\<lambda>t. m t = k) ranked = filter (\<lambda>t. m t = k) L"
proof -
  show "distinct ranked" using assms(1) by (simp add: ranked_def)
  show "set ranked = {t \<in> set L. 0 < m t}" by (simp add: ranked_def)
  have "sorted (map (\<lambda>t. - int (m t)) ranked)" unfolding ranked_def by (rule sorted_sort_key)
  then show "sorted_wrt (\<lambda>a b. m b \<le> m a) ranked" by (simp add: sorted_map)
  show "\<forall>k. 0 < k \<longrightarrow> filter (\<lambda>t. m t = k) ranked = filter (\<lambda>t. m t = k) L"
  proof (intro allI impI)
    fix k :: nat assume k: "0 < k"
    have "filter (\<lambda>t. m t = k) ranked = filter (\<lambda>t. - int (m t) = - int k) ranked" by simp
    also have "\<dots> = filter (\<lambda>t. - int (m t) = - int k) (filter (\<lambda>t. 0 < m t) L)"
      unfolding ranked_def by (rule sort_key_stable)
    also have "\<dots> = filter (\<lambda>t. m t = k) L" using k by (auto intro: filter_cong)
    finally show "filter (\<lambda>t. m t = k) ranked = filter (\<lambda>t. m t = k) L" .
  qed
qed

lemma suggestions_shape:
  "length generic_suggestions = 3
   \<and> (w = [] \<longrightarrow> suggestions_of w = generic_suggestions)
   \<and> (w \<noteq> [] \<longrightarrow> suggestions_of w =
         (''Focus next: '' @ join_with '', '' (map spaced w)) # generic_suggestions)
   \<and> 3 \<le> length (suggestions_of w)"
  by (simp add: suggestions_of_def generic_suggestions_def)

text \<open>
  The claim C7 as stated fails twice. On the order of ties: two topics named \<^verbatim>\<open>2\<close> and
  \<^verbatim>\<open>1\<close>, met in this order and missed once each, are listed as \<^verbatim>\<open>1\<close>, \<^verbatim>\<open>2\<close>, because
  \<^verbatim>\<open>Object.entries\<close> puts array-index names first, in numeric order. And on the topics
  listed: a missed question whose topic is named \<^verbatim>\<open>constructor\<close> leaves the weak-topic
  list empty and the suggestions without their topic-specific line, because that name
  is found on every object and never becomes a member of \<^verbatim>\<open>topicStats\<close>.
\<close>

theorem weak_topics_numbered_counterexample:
  "r_weakTopics (projr (snd (submitAttempt sample_builtins (Some 7) numbered_db 0 Map.empty (Fin 30) 200)))
     = [''1'', ''2'']
   \<and> first_seen (map topic_of [numbered_first, numbered_second]) = [''2'', ''1'']
   \<and> miss_count sample_builtins Map.empty [numbered_first, numbered_second] ''2'' = 1
   \<and> miss_count sample_builtins Map.empty [numbered_first, numbered_second] ''1'' = 1
   \<and> snd (submitAttempt sample_builtins (Some 7) inherited_db 0 Map.empty (Fin 30) 200) =
       Inr \<lparr>r_score = 0, r_total = 1, r_weakTopics = [],
            r_suggestions =
              [''Review basics first: definitions, standard formulas, and canonical properties.'',
               ''Practice 10 targeted problems per weak topic and redo similar questions.'',
               ''Reattempt a shorter mock to validate improvements.''],
            r_mistakes =
              [\<lparr>m_id = Fin 1, m_topic = ''constructor'', m_correct = ''2'',
                 m_yours = ''blank''\<rparr>]\<rparr>
   \<and> miss_count sample_builtins Map.empty [inherited_question] ''constructor'' = 1"
  by (simp add: numbered_db_def numbered_first_def numbered_second_def inherited_db_def
        inherited_question_def miss_count_def missed_def attempt_eval)

text \<open>
  C7, as the code has it. For every successful submission the weak-topic list has at
  most 4 entries; the suggestions are the three fixed lines, preceded by the
  topic-specific line exactly when the weak-topic list is not empty, so there are at
  least 3. When no topic of the attempt is named like a property of \<^verbatim>\<open>Object.prototype\<close>,
  the weak-topic list is the first 4 entries of the ranking that holds exactly the
  topics with at least one missed question, each once, in descending order of miss
  count; topics of equal miss count stand in the order of \<^verbatim>\<open>Object.entries\<close>, array-index
  names first in numeric order and then the other names as first encountered, which is
  the order of first encounter in the question list when no topic is named like an
  array index.
\<close>

theorem weak_topics_ranking:
  assumes "submitAttempt bi user db aid answers d now = (db', Inr r)"
    and "examAttempts db aid = Some att"
  shows "length (r_weakTopics r) \<le> 4
    \<and> 3 \<le> length (r_suggestions r)
    \<and> (r_weakTopics r = [] \<longrightarrow> r_suggestions r = generic_suggestions)
    \<and> (r_weakTopics r \<noteq> [] \<longrightarrow> r_suggestions r =
         (''Focus next: '' @ join_with '', '' (map spaced (r_weakTopics r))) # generic_suggestions)
    \<and> ((\<forall>q \<in> set (a_questions att). topic_of q \<notin> set object_prototype_names) \<longrightarrow>
        (\<exists>ranked. r_weakTopics r = take 4 ranked
           \<and> distinct ranked
           \<and> set ranked = {t \<in> topic_of ` set (a_questions att).
                             0 < miss_count bi answers (a_questions att) t}
           \<and> sorted_wrt (\<lambda>a b. miss_count bi answers (a_questions att) b
                                  \<le> miss_count bi answers (a_questions att) a) ranked
           \<and> (\<forall>k. 0 < k \<longrightarrow>
                 filter (\<lambda>t. miss_count bi answers (a_questions att) t = k) ranked =
                 filter (\<lambda>t. miss_count bi answers (a_questions att) t = k)
                   (key_order (first_seen (map topic_of (a_questions att)))))
           \<and> ((\<forall>q \<in> set (a_questions att). \<not> is_array_index (topic_of q)) \<longrightarrow>
               (\<forall>k. 0 < k \<longrightarrow>
                 filter (\<lambda>t. miss_count bi answers (a_questions att) t = k) ranked =
                 filter (\<lambda>t. miss_count bi answers (a_questions att) t = k)
                   (first_seen (map topic_of (a_questions att)))))))"
proof -
  let ?qs = "a_questions att"
  let ?m = "miss_count bi answers ?qs"
  let ?L = "first_seen (map topic_of ?qs)"
  let ?K = "key_order ?L"
  let ?ranked = "sort_key (\<lambda>t. - int (?m t)) (filter (\<lambda>t. 0 < ?m t) ?K)"
  from submit_Inr [OF assms(1)] assms(2) obtain uid where
    u: "user = Some uid" "a_userId att = uid" "\<not> a_completed att" by auto
  from submit_open [OF assms(2) u(2) u(3), of bi answers d now] assms(1) u(1)
  have w: "r_weakTopics r = weakTopics_of (g_topicStats (grade bi answers ?qs))"
    and sg: "r_suggestions r = suggestions_of (r_weakTopics r)"
    by auto
  have len: "length (r_weakTopics r) \<le> 4" unfolding w by (simp add: weakTopics_of_def)
  note shape = suggestions_shape [of "r_weakTopics r"]
  have tracked: "(\<forall>q \<in> set ?qs. topic_of q \<notin> set object_prototype_names) \<longrightarrow>
        (\<exists>ranked. r_weakTopics r = take 4 ranked
           \<and> distinct ranked
           \<and> set ranked = {t \<in> topic_of ` set ?qs. 0 < ?m t}
           \<and> sorted_wrt (\<lambda>a b. ?m b \<le> ?m a) ranked
           \<and> (\<forall>k. 0 < k \<longrightarrow> filter (\<lambda>t. ?m t = k) ranked = filter (\<lambda>t. ?m t = k) ?K)
           \<and> ((\<forall>q \<in> set ?qs. \<not> is_array_index (topic_of q)) \<longrightarrow>
               (\<forall>k. 0 < k \<longrightarrow> filter (\<lambda>t. ?m t = k) ranked = filter (\<lambda>t. ?m t = k) ?L)))"
  proof
    assume p: "\<forall>q \<in> set ?qs. topic_of q \<notin> set object_prototype_names"
    have d: "distinct ?K" by (simp add: distinct_key_order)
    note rp = ranking_properties [OF d, of ?m]
    have a: "r_weakTopics r = take 4 ?ranked" unfolding w using p by (rule weakTopics_tracked)
    have b: "set ?ranked = {t \<in> topic_of ` set ?qs. 0 < ?m t}" using rp(2) by simp
    have c: "(\<forall>q \<in> set ?qs. \<not> is_array_index (topic_of q)) \<longrightarrow>
               (\<forall>k. 0 < k \<longrightarrow> filter (\<lambda>t. ?m t = k) ?ranked = filter (\<lambda>t. ?m t = k) ?L)"
    proof
      assume "\<forall>q \<in> set ?qs. \<not> is_array_index (topic_of q)"
      then have "\<forall>t \<in> set ?L. \<not> is_array_index t" by auto
      then have "?K = ?L" by (rule key_order_plain)
      with rp(4) show "\<forall>k. 0 < k \<longrightarrow> filter (\<lambda>t. ?m t = k) ?ranked = filter (\<lambda>t. ?m t = k) ?L"
        by simp
    qed
    show "\<exists>ranked. r_weakTopics r = take 4 ranked
           \<and> distinct ranked
           \<and> set ranked = {t \<in> topic_of ` set ?qs. 0 < ?m t}
           \<and> sorted_wrt (\<lambda>a b. ?m b \<le> ?m a) ranked
           \<and> (\<forall>k. 0 < k \<longrightarrow> filter (\<lambda>t. ?m t = k) ranked = filter (\<lambda>t. ?m t = k) ?K)
           \<and> ((\<forall>q \<in> set ?qs. \<not> is_array_index (topic_of q)) \<longrightarrow>
               (\<forall>k. 0 < k \<longrightarrow> filter (\<lambda>t. ?m t = k) ranked = filter (\<lambda>t. ?m t = k) ?L))"
      by (rule exI [of _ ?ranked]) (intro conjI a rp(1) b rp(3) rp(4) c)
  qed
  show ?thesis using len shape tracked unfolding sg [symmetric] by blast
qed

lemma blank_submission:
  "submitAttempt sample_builtins (Some 7) sample_db 0 Map.empty (Fin 30) 200 =
     (submitted_db, Inr blank_result)"
proof -
  have "snd (submitAttempt sample_builtins (Some 7) sample_db 0 Map.empty (Fin 30) 200) =
          Inr blank_result"
    by (simp add: sample_db_def blank_result_def attempt_eval)
  then show ?thesis by (simp add: submitted_db_def prod_eq_iff)
qed

lemma numbered_submission:
  "\<exists>db' r. submitAttempt sample_builtins (Some 7) numbered_db 0 Map.empty (Fin 30) 200 = (db', Inr r)
     \<and> r_weakTopics r = [''1'', ''2'']"
  by (simp add: numbered_db_def numbered_first_def numbered_second_def attempt_eval)

lemma numbered_db_0:
  "\<exists>att. examAttempts numbered_db 0 = Some att \<and> a_questions att = [numbered_first, numbered_second]"
  by (simp add: numbered_db_def createAttempt_def empty_db_def Let_def)

text \<open>
  Two runs: the sample attempt, whose topic names are ordinary, and the attempt with the
  topics \<^verbatim>\<open>2\<close> and \<^verbatim>\<open>1\<close>, where the set and the order by miss count still hold.
\<close>

theorem weak_topics_ranking_witness:
  "topic_of sample_mcq \<notin> set object_prototype_names
   \<and> topic_of sample_nat \<notin> set object_prototype_names
   \<and> \<not> is_array_index (topic_of sample_mcq) \<and> \<not> is_array_index (topic_of sample_nat)
   \<and> submitAttempt sample_builtins (Some 7) sample_db 0 Map.empty (Fin 30) 200 =
       (submitted_db, Inr blank_result)
   \<and> length (r_weakTopics blank_result) \<le> 4
   \<and> r_suggestions blank_result =
       (''Focus next: '' @ join_with '', '' (map spaced (r_weakTopics blank_result)))
       # generic_suggestions
   \<and> (\<exists>ranked. r_weakTopics blank_result = take 4 ranked \<and> distinct ranked
         \<and> set ranked = {t \<in> topic_of ` set [sample_mcq, sample_nat].
                            0 < miss_count sample_builtins Map.empty [sample_mcq, sample_nat] t}
         \<and> filter (\<lambda>t. miss_count sample_builtins Map.empty [sample_mcq, sample_nat] t = 1) ranked
             = filter (\<lambda>t. miss_count sample_builtins Map.empty [sample_mcq, sample_nat] t = 1)
                 (first_seen (map topic_of [sample_mcq, sample_nat])))
   \<and> (\<exists>ranked. [''1'', ''2''] = take 4 ranked \<and> distinct ranked
         \<and> set ranked = {t \<in> topic_of ` set [numbered_first, numbered_second].
                0 < miss_count sample_builtins Map.empty [numbered_first, numbered_second] t})"
proof -
  have p: "topic_of sample_mcq \<notin> set object_prototype_names
      \<and> topic_of sample_nat \<notin> set object_prototype_names"
    by (simp add: topic_of_def sample_mcq_def sample_nat_def object_prototype_names_def)
  have i: "\<not> is_array_index (topic_of sample_mcq) \<and> \<not> is_array_index (topic_of sample_nat)"
    by (simp add: topic_of_def sample_mcq_def sample_nat_def is_array_index_def is_digit_def)
  have w: "r_weakTopics blank_result \<noteq> []" by (simp add: blank_result_def)
  obtain att0 where a0: "examAttempts sample_db 0 = Some att0"
    and aq0: "a_questions att0 = [sample_mcq, sample_nat]"
    using sample_db_0 by simp
  note t = weak_topics_ranking [OF blank_submission a0]
  from t have l: "length (r_weakTopics blank_result) \<le> 4" by (rule conjunct1)
  from t w have sg: "r_suggestions blank_result =
       (''Focus next: '' @ join_with '', '' (map spaced (r_weakTopics blank_result)))
       # generic_suggestions"
    by (elim conjE) (rule mp)
  have hp: "\<forall>q \<in> set (a_questions att0). topic_of q \<notin> set object_prototype_names"
    unfolding aq0 using p by simp
  have hi: "\<forall>q \<in> set (a_questions att0). \<not> is_array_index (topic_of q)"
    unfolding aq0 using i by simp
  note tr = t [THEN conjunct2, THEN conjunct2, THEN conjunct2, THEN conjunct2, THEN mp, OF hp]
  from tr obtain ranked where rk:
    "r_weakTopics blank_result = take 4 ranked" "distinct ranked"
    "set ranked = {t \<in> topic_of ` set (a_questions att0).
                     0 < miss_count sample_builtins Map.empty (a_questions att0) t}"
    and ties: "(\<forall>q \<in> set (a_questions att0). \<not> is_array_index (topic_of q)) \<longrightarrow>
       (\<forall>k. 0 < k \<longrightarrow>
          filter (\<lambda>t. miss_count sample_builtins Map.empty (a_questions att0) t = k) ranked =
          filter (\<lambda>t. miss_count sample_builtins Map.empty (a_questions att0) t = k)
            (first_seen (map topic_of (a_questions att0))))"
    by (elim exE conjE)
  from ties hi have
    "filter (\<lambda>t. miss_count sample_builtins Map.empty (a_questions att0) t = 1) ranked =
     filter (\<lambda>t. miss_count sample_builtins Map.empty (a_questions att0) t = 1)
       (first_seen (map topic_of (a_questions att0)))"
    by simp
  with rk have e1: "\<exists>ranked. r_weakTopics blank_result = take 4 ranked \<and> distinct ranked
         \<and> set ranked = {t \<in> topic_of ` set [sample_mcq, sample_nat].
                            0 < miss_count sample_builtins Map.empty [sample_mcq, sample_nat] t}
         \<and> filter (\<lambda>t. miss_count sample_builtins Map.empty [sample_mcq, sample_nat] t = 1) ranked
             = filter (\<lambda>t. miss_count sample_builtins Map.empty [sample_mcq, sample_nat] t = 1)
                 (first_seen (map topic_of [sample_mcq, sample_nat]))"
    unfolding aq0 by (intro exI [of _ ranked] conjI)
  obtain db' r att where s: "submitAttempt sample_builtins (Some 7) numbered_db 0 Map.empty (Fin 30) 200 = (db', Inr r)"
    and rw: "r_weakTopics r = [''1'', ''2'']"
    and a: "examAttempts numbered_db 0 = Some att" and aq: "a_questions att = [numbered_first, numbered_second]"
    using numbered_submission numbered_db_0 by blast
  have np: "\<forall>q \<in> set (a_questions att). topic_of q \<notin> set object_prototype_names"
    by (simp add: aq topic_of_def numbered_first_def numbered_second_def object_prototype_names_def)
  from weak_topics_ranking [OF s a] np
  have "\<exists>ranked. r_weakTopics r = take 4 ranked \<and> distinct ranked
         \<and> set ranked = {t \<in> topic_of ` set (a_questions att).
                0 < miss_count sample_builtins Map.empty (a_questions att) t}"
    by blast
  then have e2: "\<exists>ranked. [''1'', ''2''] = take 4 ranked \<and> distinct ranked
         \<and> set ranked = {t \<in> topic_of ` set [numbered_first, numbered_second].
                0 < miss_count sample_builtins Map.empty [numbered_first, numbered_second] t}"
    unfolding rw aq .
  from p i blank_submission l sg e1 e2 show ?thesis by (intro conjI) simp_all
qed

section \<open>The normalizer keeps the invariant\<close>

lemma length_options_of: "length (options_of q) = 4"
  by (simp add: options_of_def split: option.splits json.splits)

lemma mcq_answer_of_range: "\<exists>r. mcq_answer_of q = Fin r \<and> 0 \<le> r \<and> r \<le> 3"
proof (cases "field q ''answer''")
  case None
  then show ?thesis by (simp add: mcq_answer_of_def)
next
  case (Some v)
  show ?thesis
  proof (cases v)
    case (JNum a)
    with Some show ?thesis by (cases a) (auto simp add: mcq_answer_of_def)
  qed (use Some in \<open>simp_all add: mcq_answer_of_def\<close>)
qed

lemma normalize_question_cases:
  "normalize_question bi topics q idx = Inl TypeError
   \<or> (\<exists>question topic explanation.
        normalize_question bi topics q idx =
          Inr \<lparr>q_id = Fin (of_nat (idx + 1)), q_type = MCQ, q_question = question,
               q_options = Some (options_of q), q_answer = Some (ANum (mcq_answer_of q)),
               q_marks = Some (marks_of q), q_topic = Some topic, q_explanation = explanation\<rparr>)
   \<or> (\<exists>question topic explanation.
        normalize_question bi topics q idx =
          Inr \<lparr>q_id = Fin (of_nat (idx + 1)), q_type = NAT, q_question = question,
               q_options = None, q_answer = Some (natAns_of q),
               q_marks = Some (marks_of q), q_topic = Some topic, q_explanation = explanation\<rparr>)"
  by (simp add: normalize_question_def split: option.splits)

lemma normalize_question_Inr:
  assumes "normalize_question bi topics q idx = Inr x"
  shows "canonical x \<and> q_id x = Fin (of_nat (idx + 1))"
  using normalize_question_cases [of bi topics q idx] assms mcq_answer_of_range [of q]
  by (auto simp add: canonical_def length_options_of)

lemma normalize_question_Inl:
  "normalize_question bi topics q idx = Inl e \<Longrightarrow> e = TypeError"
  using normalize_question_cases [of bi topics q idx] by auto

lemma normalize_from_Inr:
  "normalize_from bi topics idx qs = Inr xs \<Longrightarrow>
     length xs = length qs \<and> list_all canonical xs
     \<and> map q_id xs = map (\<lambda>i. Fin (of_nat (i + 1))) [idx ..< idx + length qs]"
proof (induction qs arbitrary: idx xs)
  case Nil
  then show ?case by simp
next
  case (Cons q qs)
  from Cons.prems obtain x xs' where
    x: "normalize_question bi topics q idx = Inr x"
    and r: "normalize_from bi topics (idx + 1) qs = Inr xs'" and xs: "xs = x # xs'"
    by (auto split: sum.splits)
  have "[idx ..< idx + length (q # qs)] = idx # [Suc idx ..< idx + length (q # qs)]"
    by (rule upt_conv_Cons) simp
  then have u: "[idx ..< idx + length (q # qs)] = idx # [idx + 1 ..< idx + 1 + length qs]"
    by (simp del: upt_Suc)
  from Cons.IH [OF r] normalize_question_Inr [OF x] xs show ?case
    unfolding u by simp
qed

lemma normalize_from_Inl:
  "normalize_from bi topics idx qs = Inl e \<Longrightarrow> e = TypeError"
  by (induction qs arbitrary: idx) (auto split: sum.splits dest: normalize_question_Inl)


section \<open>The local generator always returns\<close>

lemma pick_nonempty: "base \<noteq> [] \<Longrightarrow> pick base i = Some (base ! ((i div 2) mod length base))"
  by (simp add: pick_def Let_def)

lemma baseMCQs_shape: "\<forall>(q, os, ans, t) \<in> set baseMCQs. length os = 4 \<and> ans \<le> 3"
  by (simp add: baseMCQs_def)

lemma local_question_Inr:
  "\<exists>q. local_question topicsList withExplanations i = Inr q \<and> canonical q
        \<and> q_id q = Fin (of_nat (i + 1))"
proof (cases "i mod 2 = 0")
  case True
  have ne: "baseMCQs \<noteq> []" by (simp add: baseMCQs_def)
  obtain q os ans t where e: "baseMCQs ! ((i div 2) mod length baseMCQs) = (q, os, ans, t)"
    by (metis prod_cases4)
  have "(q, os, ans, t) \<in> set baseMCQs"
    using ne e by (metis length_greater_0_conv mod_less_divisor nth_mem)
  with baseMCQs_shape have "length os = 4 \<and> ans \<le> 3" by blast
  then show ?thesis
    using True e by (simp add: local_question_def Let_def pick_nonempty [OF ne] canonical_def)
next
  case False
  have ne: "baseNATs \<noteq> []" by (simp add: baseNATs_def)
  obtain q ans t where e: "baseNATs ! ((i div 2) mod length baseNATs) = (q, ans, t)"
    by (metis prod_cases3)
  show ?thesis
    using False e by (simp add: local_question_def Let_def pick_nonempty [OF ne] canonical_def)
qed

lemma local_loop_Fin:
  "\<exists>qs. local_loop (Fin r) topicsList withExplanations i arr = Some (Inr (arr @ qs))
        \<and> list_all canonical qs \<and> length qs = nat \<lceil>r\<rceil> - i"
proof (induction "nat \<lceil>r\<rceil> - i" arbitrary: i arr)
  case 0
  then have "\<not> rat_of_nat i < r" by linarith
  then show ?case using 0 by (subst local_loop.simps) simp
next
  case (Suc k)
  then have lt: "rat_of_nat i < r" by linarith
  obtain q where q: "local_question topicsList withExplanations i = Inr q" "canonical q"
    using local_question_Inr by blast
  from Suc have "k = nat \<lceil>r\<rceil> - (i + 1)" by simp
  from Suc.hyps(1) [OF this, of "arr @ [q]"] obtain qs where
    qs: "local_loop (Fin r) topicsList withExplanations (i + 1) (arr @ [q]) = Some (Inr ((arr @ [q]) @ qs))"
      "list_all canonical qs" "length qs = nat \<lceil>r\<rceil> - (i + 1)"
    by blast
  have "local_loop (Fin r) topicsList withExplanations i arr = Some (Inr (arr @ (q # qs)))"
    using lt q qs(1) by (subst local_loop.simps) simp
  moreover have "list_all canonical (q # qs)" using q qs by simp
  moreover have "length (q # qs) = nat \<lceil>r\<rceil> - i" using qs(3) Suc.hyps(2) by simp
  ultimately show ?case by blast
qed

lemma buildLocalQuestions_total:
  "\<exists>qs. buildLocalQuestions n topicsList withExplanations = Some (Inr qs)
        \<and> list_all canonical qs \<and> length qs = local_count n"
proof (cases n)
  case (Fin x)
  have t: "js_max (Fin 5) (js_min (Fin 65) (Fin x)) = Fin (max 5 (min 65 x))"
    by (simp add: max_def min_def)
  from local_loop_Fin [of "max 5 (min 65 x)" topicsList withExplanations 0 "[]"]
  show ?thesis unfolding buildLocalQuestions_def Let_def Fin t by simp
next
  case PInf
  from local_loop_Fin [of 65 topicsList withExplanations 0 "[]"]
  show ?thesis unfolding buildLocalQuestions_def Let_def PInf by simp
next
  case NInf
  from local_loop_Fin [of 5 topicsList withExplanations 0 "[]"]
  show ?thesis unfolding buildLocalQuestions_def Let_def NInf by simp
next
  case NaN
  show ?thesis unfolding buildLocalQuestions_def Let_def NaN
    by (subst local_loop.simps) simp
qed

section \<open>The order of the fallback\<close>

lemma failed_from_append:
  "failed_from bi world n topics k (xs @ ys) =
     (failed_from bi world n topics k xs \<and> failed_from bi world n topics (k + length xs) ys)"
  by (induction xs arbitrary: k) auto

lemma try_models_spec:
  assumes "try_models bi world n topics ms tr = (tr', r)"
  shows "\<exists>j \<le> length ms. tr' = tr @ map OpenRouter (take j ms)
     \<and> (case r of
          None \<Rightarrow> j = length ms \<and> failed_from bi world n topics (length tr) (map OpenRouter ms)
        | Some qs \<Rightarrow> 0 < j
            \<and> failed_from bi world n topics (length tr) (map OpenRouter (take (j - 1) ms))
            \<and> try_candidate bi world n topics (length tr + (j - 1)) (OpenRouter (ms ! (j - 1))) = Inr qs)"
  using assms
proof (induction ms arbitrary: tr)
  case Nil
  then show ?case by auto
next
  case (Cons m ms)
  show ?case
  proof (cases "try_candidate bi world n topics (length tr) (OpenRouter m)")
    case (Inr qs)
    with Cons.prems have "tr' = tr @ [OpenRouter m]" "r = Some qs"
      by (simp_all add: tryOnceOpenRouter_def)
    with Inr show ?thesis by (intro exI [of _ 1]) simp
  next
    case (Inl e)
    with Cons.prems have "try_models bi world n topics ms (tr @ [OpenRouter m]) = (tr', r)"
      by (simp add: tryOnceOpenRouter_def)
    from Cons.IH [OF this] obtain j where j: "j \<le> length ms"
      "tr' = (tr @ [OpenRouter m]) @ map OpenRouter (take j ms)"
      "case r of
          None \<Rightarrow> j = length ms \<and> failed_from bi world n topics (length (tr @ [OpenRouter m])) (map OpenRouter ms)
        | Some qs \<Rightarrow> 0 < j
            \<and> failed_from bi world n topics (length (tr @ [OpenRouter m])) (map OpenRouter (take (j - 1) ms))
            \<and> try_candidate bi world n topics (length (tr @ [OpenRouter m]) + (j - 1)) (OpenRouter (ms ! (j - 1))) = Inr qs"
      by blast
    show ?thesis
    proof (intro exI [of _ "Suc j"] conjI)
      show "Suc j \<le> length (m # ms)" using j(1) by simp
      show "tr' = tr @ map OpenRouter (take (Suc j) (m # ms))" using j(2) by simp
      show "case r of
          None \<Rightarrow> Suc j = length (m # ms) \<and> failed_from bi world n topics (length tr) (map OpenRouter (m # ms))
        | Some qs \<Rightarrow> 0 < Suc j
            \<and> failed_from bi world n topics (length tr) (map OpenRouter (take (Suc j - 1) (m # ms)))
            \<and> try_candidate bi world n topics (length tr + (Suc j - 1)) (OpenRouter ((m # ms) ! (Suc j - 1))) = Inr qs"
      proof (cases r)
        case None
        with j(3) Inl show ?thesis by simp
      next
        case (Some qs)
        with j(3) have "0 < j" by simp
        then obtain j' where "j = Suc j'" by (cases j) auto
        with j(3) Some Inl show ?thesis by simp
      qed
    qed
  qed
qed


lemma openrouter_phase:
  assumes run: "(case try_models bi world n topics models tr0 of
                  (tr, Some questions) \<Rightarrow> (tr, Some (Inr questions))
                | (tr, None) \<Rightarrow>
                    (case tryOnceOpenRouter bi world n topics (length tr) (models ! 0) of
                       Inr questions \<Rightarrow> (tr @ [OpenRouter (models ! 0)], Some (Inr questions))
                     | Inl e \<Rightarrow> (tr @ [OpenRouter (models ! 0)], loc))) = (tr, res)"
    and f0: "failed_from bi world n topics 0 tr0"
  shows "tr = take (length tr) (tr0 @ map OpenRouter models @ [OpenRouter (models ! 0)])
     \<and> failed_from bi world n topics 0 (butlast tr)
     \<and> ((\<exists>qs. res = Some (Inr qs) \<and> tr \<noteq> []
            \<and> try_candidate bi world n topics (length tr - 1) (last tr) = Inr qs)
        \<or> (res = loc \<and> tr = tr0 @ map OpenRouter models @ [OpenRouter (models ! 0)]
            \<and> failed_from bi world n topics 0 tr))"
proof -
  obtain tr1 r1 where tm: "try_models bi world n topics models tr0 = (tr1, r1)"
    by (cases "try_models bi world n topics models tr0") blast
  from try_models_spec [OF tm] obtain j where j: "j \<le> length models"
    "tr1 = tr0 @ map OpenRouter (take j models)"
    "case r1 of
       None \<Rightarrow> j = length models \<and> failed_from bi world n topics (length tr0) (map OpenRouter models)
     | Some qs \<Rightarrow> 0 < j
         \<and> failed_from bi world n topics (length tr0) (map OpenRouter (take (j - 1) models))
         \<and> try_candidate bi world n topics (length tr0 + (j - 1)) (OpenRouter (models ! (j - 1))) = Inr qs"
    by blast
  show ?thesis
  proof (cases r1)
    case None
    with j have t1: "tr1 = tr0 @ map OpenRouter models"
      and f1: "failed_from bi world n topics (length tr0) (map OpenRouter models)"
      by simp_all
    have f01: "failed_from bi world n topics 0 tr1"
      unfolding t1 using f0 f1 by (simp add: failed_from_append)
    show ?thesis
    proof (cases "try_candidate bi world n topics (length tr1) (OpenRouter (models ! 0))")
      case (Inr q)
      with run tm None have tr: "tr = tr1 @ [OpenRouter (models ! 0)]" and res: "res = Some (Inr q)"
        by (simp_all add: tryOnceOpenRouter_def)
      have bl: "butlast tr = tr1" and la: "last tr = OpenRouter (models ! 0)"
        and len: "length tr - 1 = length tr1" and ne: "tr \<noteq> []"
        using tr by simp_all
      have tk: "tr = take (length tr) (tr0 @ map OpenRouter models @ [OpenRouter (models ! 0)])"
        using tr t1 by simp
      show ?thesis unfolding bl la len using tk f01 Inr res ne by blast
    next
      case (Inl e)
      with run tm None have tr: "tr = tr1 @ [OpenRouter (models ! 0)]" and res: "res = loc"
        by (simp_all add: tryOnceOpenRouter_def)
      have bl: "butlast tr = tr1" using tr by simp
      have full: "tr = tr0 @ map OpenRouter models @ [OpenRouter (models ! 0)]"
        using tr t1 by simp
      have tk: "tr = take (length tr) (tr0 @ map OpenRouter models @ [OpenRouter (models ! 0)])"
        using full by simp
      have ff: "failed_from bi world n topics 0 tr"
        unfolding tr using f01 Inl by (simp add: failed_from_append)
      show ?thesis unfolding bl using tk f01 res full ff by blast
    qed
  next
    case (Some qs)
    with run tm have tr: "tr = tr1" and res: "res = Some (Inr qs)" by simp_all
    from j(1) have j3: "j \<le> 3" by (simp add: models_def)
    from Some j(3) have jpos: "0 < j"
      and fj: "failed_from bi world n topics (length tr0) (map OpenRouter (take (j - 1) models))"
      and cj: "try_candidate bi world n topics (length tr0 + (j - 1)) (OpenRouter (models ! (j - 1))) = Inr qs"
      by auto
    from jpos j3 consider "j = 1" | "j = 2" | "j = 3" by linarith
    then show ?thesis
    proof cases
      case 1
      with tr res j(2) fj cj f0 show ?thesis
        by (simp add: models_def failed_from_append butlast_append)
    next
      case 2
      with tr res j(2) fj cj f0 show ?thesis
        by (simp add: models_def failed_from_append butlast_append)
    next
      case 3
      with tr res j(2) fj cj f0 show ?thesis
        by (simp add: models_def failed_from_append butlast_append)
    qed
  qed
qed

lemma generateExam_cases:
  assumes "generateExam bi cfg world a = (tr, res)"
  shows "tr = take (length tr) (schedule cfg)
     \<and> failed_from bi world (numQuestions_of a) (topics_of a) 0 (butlast tr)
     \<and> ((\<exists>qs. res = Some (Inr qs) \<and> tr \<noteq> []
            \<and> try_candidate bi world (numQuestions_of a) (topics_of a) (length tr - 1) (last tr) = Inr qs)
        \<or> (res = buildLocalQuestions (numQuestions_of a) (topics_of a) (includeExplanations_of a)
            \<and> tr = schedule cfg
            \<and> failed_from bi world (numQuestions_of a) (topics_of a) 0 tr))"
proof (cases "anthropicKey cfg \<noteq> []")
  case True
  note ak = True
  show ?thesis
  proof (cases "try_candidate bi world (numQuestions_of a) (topics_of a) 0 Anthropic")
    case (Inr qs)
    with assms ak have "tr = [Anthropic]" "res = Some (Inr qs)"
      by (simp_all add: generateExam_def Let_def tryAnthropic_def)
    with Inr ak show ?thesis by (simp add: schedule_def)
  next
    case (Inl e)
    then have f0: "failed_from bi world (numQuestions_of a) (topics_of a) 0 [Anthropic]" by simp
    show ?thesis
    proof (cases "openrouterKey cfg \<noteq> []")
      case True
      with assms ak Inl have run: "(case try_models bi world (numQuestions_of a) (topics_of a) models [Anthropic] of
                  (tr, Some questions) \<Rightarrow> (tr, Some (Inr questions))
                | (tr, None) \<Rightarrow>
                    (case tryOnceOpenRouter bi world (numQuestions_of a) (topics_of a) (length tr) (models ! 0) of
                       Inr questions \<Rightarrow> (tr @ [OpenRouter (models ! 0)], Some (Inr questions))
                     | Inl e \<Rightarrow> (tr @ [OpenRouter (models ! 0)],
                          buildLocalQuestions (numQuestions_of a) (topics_of a) (includeExplanations_of a)))) = (tr, res)"
        by (simp add: generateExam_def Let_def tryAnthropic_def)
      from openrouter_phase [OF run f0] ak True show ?thesis by (simp add: schedule_def)
    next
      case False
      with assms ak Inl have "tr = [Anthropic]"
        "res = buildLocalQuestions (numQuestions_of a) (topics_of a) (includeExplanations_of a)"
        by (simp_all add: generateExam_def Let_def tryAnthropic_def)
      with Inl ak False show ?thesis by (simp add: schedule_def)
    qed
  qed
next
  case False
  note nak = False
  show ?thesis
  proof (cases "openrouterKey cfg \<noteq> []")
    case True
    with assms nak have run: "(case try_models bi world (numQuestions_of a) (topics_of a) models [] of
                  (tr, Some questions) \<Rightarrow> (tr, Some (Inr questions))
                | (tr, None) \<Rightarrow>
                    (case tryOnceOpenRouter bi world (numQuestions_of a) (topics_of a) (length tr) (models ! 0) of
                       Inr questions \<Rightarrow> (tr @ [OpenRouter (models ! 0)], Some (Inr questions))
                     | Inl e \<Rightarrow> (tr @ [OpenRouter (models ! 0)],
                          buildLocalQuestions (numQuestions_of a) (topics_of a) (includeExplanations_of a)))) = (tr, res)"
      by (simp add: generateExam_def Let_def)
    have f0: "failed_from bi world (numQuestions_of a) (topics_of a) 0 []" by simp
    from openrouter_phase [OF run f0] nak True show ?thesis by (simp add: schedule_def)
  next
    case False
    with assms nak have "tr = []"
      "res = buildLocalQuestions (numQuestions_of a) (topics_of a) (includeExplanations_of a)"
      by (simp_all add: generateExam_def Let_def)
    with nak False show ?thesis by (simp add: schedule_def)
  qed
qed

text \<open>
  C2. Whatever the keys, the request and the behaviour of the providers, \<^verbatim>\<open>generateExam\<close>
  returns a question sequence: no error of a provider call reaches the caller. The
  sequence is either the normalized output of the last provider call made, or what the
  local generator builds; and the local generator returns a question sequence for every
  count, topic list and flag: it neither throws nor runs forever.
\<close>

theorem generateExam_total:
  "(\<exists>tr qs. generateExam bi cfg world a = (tr, Some (Inr qs))
      \<and> ((0 < length tr
           \<and> try_candidate bi world (numQuestions_of a) (topics_of a) (length tr - 1) (last tr) = Inr qs)
         \<or> buildLocalQuestions (numQuestions_of a) (topics_of a) (includeExplanations_of a)
             = Some (Inr qs)))
   \<and> (\<exists>qs. buildLocalQuestions n topicsList withExplanations = Some (Inr qs))"
proof
  obtain tr res where g: "generateExam bi cfg world a = (tr, res)"
    by (cases "generateExam bi cfg world a") blast
  obtain loc where loc:
    "buildLocalQuestions (numQuestions_of a) (topics_of a) (includeExplanations_of a) = Some (Inr loc)"
    using buildLocalQuestions_total by blast
  from generateExam_cases [OF g] loc g
  show "\<exists>tr qs. generateExam bi cfg world a = (tr, Some (Inr qs))
      \<and> ((0 < length tr
           \<and> try_candidate bi world (numQuestions_of a) (topics_of a) (length tr - 1) (last tr) = Inr qs)
         \<or> buildLocalQuestions (numQuestions_of a) (topics_of a) (includeExplanations_of a)
             = Some (Inr qs))"
    by auto
  show "\<exists>qs. buildLocalQuestions n topicsList withExplanations = Some (Inr qs)"
    using buildLocalQuestions_total by blast
qed

lemma count_list_take_le: "count_list (take k xs) c \<le> count_list xs c"
proof (induction xs arbitrary: k)
  case Nil
  show ?case by simp
next
  case (Cons x xs)
  show ?case using Cons [of "k - 1"] by (cases k) (auto intro: le_SucI)
qed

lemma count_schedule:
  "count_list (schedule cfg) c \<le> (if c = OpenRouter (models ! 0) then 2 else 1)"
  by (auto simp add: schedule_def models_def)

lemma unreachable_fails:
  "try_candidate bi unreachable n topics k c = Inl ProviderError"
  by (simp add: try_candidate_def unreachable_def)

lemma all_fail_run:
  "\<exists>res. generateExam sample_builtins both_keys unreachable three_plain =
     ([Anthropic, OpenRouter ''anthropic/claude-3-haiku'',
       OpenRouter ''mistralai/mixtral-8x7b-instruct'', OpenRouter ''openai/gpt-4o-mini'',
       OpenRouter ''anthropic/claude-3-haiku''], res)"
  by (simp add: generateExam_def Let_def both_keys_def tryAnthropic_def tryOnceOpenRouter_def
        unreachable_fails models_def)

text \<open>
  The claim C3 as stated fails twice. With only the secondary key and every call
  failing, the first model is called a second time after the three models; and a
  provider whose array is empty is accepted with zero questions, no other candidate
  being tried.
\<close>

theorem fallback_retry_counterexample:
  "fst (generateExam sample_builtins openrouter_only unreachable three_plain) =
     [OpenRouter ''anthropic/claude-3-haiku'', OpenRouter ''mistralai/mixtral-8x7b-instruct'',
      OpenRouter ''openai/gpt-4o-mini'', OpenRouter ''anthropic/claude-3-haiku'']
   \<and> generateExam sample_builtins both_keys empty_array_reply three_plain =
       ([Anthropic], Some (Inr []))"
proof
  show "fst (generateExam sample_builtins openrouter_only unreachable three_plain) =
     [OpenRouter ''anthropic/claude-3-haiku'', OpenRouter ''mistralai/mixtral-8x7b-instruct'',
      OpenRouter ''openai/gpt-4o-mini'', OpenRouter ''anthropic/claude-3-haiku'']"
    by (simp add: generateExam_def Let_def openrouter_only_def tryOnceOpenRouter_def
          unreachable_fails models_def)
  have "try_candidate sample_builtins empty_array_reply (numQuestions_of three_plain)
          (topics_of three_plain) 0 Anthropic = Inr []"
    by (simp add: try_candidate_def empty_array_reply_def normalize_response_def match_array_def
          sample_builtins_def numQuestions_of_def three_plain_def)
  then show "generateExam sample_builtins both_keys empty_array_reply three_plain =
       ([Anthropic], Some (Inr []))"
    by (simp add: generateExam_def Let_def both_keys_def tryAnthropic_def)
qed

text \<open>
  C3, as the code has it. The calls made are an initial part of the fixed order for the
  configured keys: the primary provider, the three models of the secondary provider,
  and the first of these models once more. So every candidate is called at most once,
  except that first model, which is called at most twice. Every call but the last threw
  (a provider failure, a parse failure or a throwing element). The result is either the
  normalized output of the last call, whole and alone, whatever its length; or, when the
  whole order was called and every call threw, the output of the local generator.
\<close>

theorem fallback_order:
  assumes "generateExam bi cfg world a = (tr, res)"
  shows "tr = take (length tr) (schedule cfg)
     \<and> count_list tr c \<le> (if c = OpenRouter (models ! 0) then 2 else 1)
     \<and> failed_from bi world (numQuestions_of a) (topics_of a) 0 (butlast tr)
     \<and> ((\<exists>qs. res = Some (Inr qs) \<and> 0 < length tr
            \<and> try_candidate bi world (numQuestions_of a) (topics_of a) (length tr - 1) (last tr) = Inr qs)
        \<or> (res = buildLocalQuestions (numQuestions_of a) (topics_of a) (includeExplanations_of a)
            \<and> tr = schedule cfg
            \<and> failed_from bi world (numQuestions_of a) (topics_of a) 0 tr))"
proof -
  note c = generateExam_cases [OF assms]
  from c have "tr = take (length tr) (schedule cfg)" by blast
  then have "count_list tr c \<le> count_list (schedule cfg) c"
    by (metis count_list_take_le)
  with count_schedule [of cfg c]
  have "count_list tr c \<le> (if c = OpenRouter (models ! 0) then 2 else 1)" by linarith
  with c show ?thesis by auto
qed


theorem fallback_order_witness:
  "fst (generateExam sample_builtins both_keys unreachable three_plain) =
     [Anthropic, OpenRouter ''anthropic/claude-3-haiku'',
      OpenRouter ''mistralai/mixtral-8x7b-instruct'', OpenRouter ''openai/gpt-4o-mini'',
      OpenRouter ''anthropic/claude-3-haiku'']
   \<and> fst (generateExam sample_builtins both_keys unreachable three_plain) = schedule both_keys
   \<and> count_list (fst (generateExam sample_builtins both_keys unreachable three_plain))
        Anthropic \<le> 1
   \<and> count_list (fst (generateExam sample_builtins both_keys unreachable three_plain))
        (OpenRouter (models ! 0)) \<le> 2
   \<and> snd (generateExam sample_builtins both_keys unreachable three_plain) =
        buildLocalQuestions (numQuestions_of three_plain) (topics_of three_plain)
          (includeExplanations_of three_plain)"
proof -
  define tr where "tr = [Anthropic, OpenRouter ''anthropic/claude-3-haiku'',
       OpenRouter ''mistralai/mixtral-8x7b-instruct'', OpenRouter ''openai/gpt-4o-mini'',
       OpenRouter ''anthropic/claude-3-haiku'']"
  obtain res where g: "generateExam sample_builtins both_keys unreachable three_plain = (tr, res)"
    using all_fail_run unfolding tr_def by blast
  note t1 = fallback_order [OF g, of Anthropic]
  note t2 = fallback_order [OF g, of "OpenRouter (models ! 0)"]
  have nosucc: "\<not> (\<exists>qs. try_candidate sample_builtins unreachable (numQuestions_of three_plain)
       (topics_of three_plain) (length tr - 1) (last tr) = Inr qs)"
    by (simp add: unreachable_fails)
  from t1 nosucc have r: "res = buildLocalQuestions (numQuestions_of three_plain)
          (topics_of three_plain) (includeExplanations_of three_plain)"
    and s: "tr = schedule both_keys"
    by blast+
  from t1 have c1: "count_list tr Anthropic \<le> 1" by simp
  from t2 have c2: "count_list tr (OpenRouter (models ! 0)) \<le> 2" by simp
  from g r s c1 c2 tr_def show ?thesis by simp
qed

section \<open>What \<^verbatim>\<open>generateExam\<close> returns\<close>

lemma normalize_Inr:
  assumes "normalize_response bi n topics content = Inr qs"
  shows "\<exists>parsed. json_parse bi (case match_array content of Some m \<Rightarrow> m | None \<Rightarrow> content)
                     = Some (JArr parsed)
           \<and> normalize_from bi topics 0 (js_slice0 parsed n) = Inr qs"
  using assms by (auto simp add: normalize_response_def Let_def split: option.splits json.splits)

lemma try_candidate_Inr:
  assumes "try_candidate bi world n topics k c = Inr qs"
  shows "\<exists>parsed :: json list. list_all canonical qs \<and> length qs = length (js_slice0 parsed n)
           \<and> map q_id qs = map (\<lambda>i. Fin (of_nat (i + 1))) [0 ..< length qs]"
proof -
  from assms obtain content where "normalize_response bi n topics content = Inr qs"
    by (auto simp add: try_candidate_def split: reply.splits)
  from normalize_Inr [OF this] obtain parsed where
    "normalize_from bi topics 0 (js_slice0 parsed n) = Inr qs" by blast
  from normalize_from_Inr [OF this]
  have "list_all canonical qs \<and> length qs = length (js_slice0 parsed n)
           \<and> map q_id qs = map (\<lambda>i. Fin (of_nat (i + 1))) [0 ..< length qs]"
    by simp
  then show ?thesis by (rule exI)
qed

lemma failed_from_last:
  "failed_from bi world n topics k tr \<Longrightarrow> tr \<noteq> [] \<Longrightarrow>
     isl (try_candidate bi world n topics (k + (length tr - 1)) (last tr))"
proof (induction tr arbitrary: k)
  case Nil
  then show ?case by simp
next
  case (Cons c cs)
  show ?case
  proof (cases "cs = []")
    case True
    with Cons.prems show ?thesis by simp
  next
    case False
    then obtain d ds where cs: "cs = d # ds" by (cases cs) auto
    from Cons.prems have "failed_from bi world n topics (k + 1) cs" by simp
    from Cons.IH [OF this False] show ?thesis by (simp add: cs)
  qed
qed

lemma numQuestions_of_int:
  assumes "(case numQuestions a of None \<Rightarrow> Fin 10 | Some n \<Rightarrow> n) = Fin (of_int i)"
  shows "numQuestions_of a = Fin (of_int (min (max i 5) 65))"
  unfolding numQuestions_of_def assms by (simp add: min_def max_def)

lemma slice_clamped: "0 \<le> c \<Longrightarrow> length (js_slice0 xs (Fin (of_int c))) \<le> nat c"
  by (simp add: Let_def)

lemma local_count_clamped: "5 \<le> c \<Longrightarrow> c \<le> 65 \<Longrightarrow> local_count (Fin (of_int c)) = nat c"
  by (simp add: min_def max_def)

text \<open>
  The claim C1 as stated fails on the number of questions: for a requested count of 3
  and a provider that answers with an empty array, \<^verbatim>\<open>generateExam\<close> returns no question
  at all.
\<close>

theorem generateExam_short_counterexample:
  "numQuestions three_plain = Some (Fin 3)
   \<and> generateExam sample_builtins anthropic_only empty_array_reply three_plain =
       ([Anthropic], Some (Inr []))"
proof
  show "numQuestions three_plain = Some (Fin 3)" by (simp add: three_plain_def)
  have "try_candidate sample_builtins empty_array_reply (numQuestions_of three_plain)
          (topics_of three_plain) 0 Anthropic = Inr []"
    by (simp add: try_candidate_def empty_array_reply_def normalize_response_def match_array_def
          sample_builtins_def numQuestions_of_def three_plain_def)
  then show "generateExam sample_builtins anthropic_only empty_array_reply three_plain =
       ([Anthropic], Some (Inr []))"
    by (simp add: generateExam_def Let_def anthropic_only_def tryAnthropic_def)
qed

text \<open>
  C1, as the code has it. \<^verbatim>\<open>generateExam\<close> always returns a question sequence, and every
  question in it keeps the invariant: four options and a numeric answer between 0 and 3
  for a multiple-choice question, no options for a numeric-answer one. For an integer
  requested count \<open>i\<close> (10 when absent) the sequence has at most \<open>clamp(i, 5, 65)\<close>
  questions, and exactly that many when every provider call made threw, in particular
  when no key is configured.
\<close>

theorem generateExam_questions:
  "\<exists>tr qs. generateExam bi cfg world a = (tr, Some (Inr qs))
     \<and> list_all canonical qs
     \<and> ((case numQuestions a of None \<Rightarrow> Fin 10 | Some n \<Rightarrow> n) = Fin (of_int i) \<longrightarrow>
          length qs \<le> nat (min (max i 5) 65)
          \<and> (failed_from bi world (numQuestions_of a) (topics_of a) 0 tr \<longrightarrow>
                length qs = nat (min (max i 5) 65)))"
proof -
  let ?n = "numQuestions_of a" and ?t = "topics_of a"
  let ?c = "min (max i 5) 65"
  obtain tr res where g: "generateExam bi cfg world a = (tr, res)"
    by (cases "generateExam bi cfg world a") blast
  obtain loc where loc:
    "buildLocalQuestions ?n ?t (includeExplanations_of a) = Some (Inr loc)"
    "list_all canonical loc" "length loc = local_count ?n"
    using buildLocalQuestions_total by blast
  from generateExam_cases [OF g]
  consider (provider) qs where "res = Some (Inr qs)" "tr \<noteq> []"
      "try_candidate bi world ?n ?t (length tr - 1) (last tr) = Inr qs"
    | (local) "res = Some (Inr loc)" "failed_from bi world ?n ?t 0 tr"
    using loc(1) by auto
  then show ?thesis
  proof cases
    case provider
    from try_candidate_Inr [OF provider(3)] obtain parsed where
      p: "list_all canonical qs" "length qs = length (js_slice0 (parsed :: json list) ?n)" by blast
    have nf: "\<not> failed_from bi world ?n ?t 0 tr"
      using failed_from_last [of bi world ?n ?t 0 tr] provider(2) provider(3) by auto
    have "(case numQuestions a of None \<Rightarrow> Fin 10 | Some n \<Rightarrow> n) = Fin (of_int i) \<longrightarrow>
            length qs \<le> nat ?c"
    proof
      assume "(case numQuestions a of None \<Rightarrow> Fin 10 | Some n \<Rightarrow> n) = Fin (of_int i)"
      then have "?n = Fin (of_int ?c)" by (rule numQuestions_of_int)
      then show "length qs \<le> nat ?c" using p(2) slice_clamped [of ?c parsed] by simp
    qed
    with g provider(1) p(1) nf show ?thesis by auto
  next
    case local
    have "(case numQuestions a of None \<Rightarrow> Fin 10 | Some n \<Rightarrow> n) = Fin (of_int i) \<longrightarrow>
            length loc = nat ?c"
    proof
      assume "(case numQuestions a of None \<Rightarrow> Fin 10 | Some n \<Rightarrow> n) = Fin (of_int i)"
      then have "?n = Fin (of_int ?c)" by (rule numQuestions_of_int)
      then show "length loc = nat ?c" using loc(3) local_count_clamped [of ?c] by simp
    qed
    with g local(1) loc(2) show ?thesis by auto
  qed
qed

theorem generateExam_questions_witness:
  "fst (generateExam sample_builtins no_keys unreachable three_plain) = []
   \<and> (\<exists>qs. snd (generateExam sample_builtins no_keys unreachable three_plain) = Some (Inr qs)
         \<and> list_all canonical qs \<and> length qs = 5)"
proof -
  have tr: "fst (generateExam sample_builtins no_keys unreachable three_plain) = []"
    by (simp add: generateExam_def Let_def no_keys_def)
  have rq: "(case numQuestions three_plain of None \<Rightarrow> Fin 10 | Some n \<Rightarrow> n) = Fin (of_int 3)"
    by (simp add: three_plain_def)
  from generateExam_questions [of sample_builtins no_keys unreachable three_plain 3] rq tr
  show ?thesis by auto
qed

section \<open>When the normalizer throws\<close>

lemma None_in_map: "(None \<in> set (map f xs)) = (\<exists>x \<in> set xs. f x = None)"
  by (induction xs) auto

lemma js_String_convertible: "(\<exists>s. js_String bi v = Some s) = convertible v"
proof (induction v)
  case (JArr xs)
  have ih: "(js_String bi x = None) = (\<not> convertible x)" if "x \<in> set xs" for x
  proof -
    have h: "convertible x = (\<exists>s. js_String bi x = Some s)"
      by (rule JArr [OF that, symmetric])
    show ?thesis
    proof (cases "js_String bi x")
      case None
      then show ?thesis unfolding h by simp
    next
      case (Some a)
      then show ?thesis unfolding h by simp
    qed
  qed
  have "(None \<in> set (map (\<lambda>x. if x = JNull then Some [] else js_String bi x) xs))
          = (\<exists>x \<in> set xs. (if x = JNull then Some [] else js_String bi x) = None)"
    by (rule None_in_map)
  also have "\<dots> = (\<exists>x \<in> set xs. \<not> convertible x)"
  proof (rule bex_cong [OF refl])
    fix x assume "x \<in> set xs"
    then show "((if x = JNull then Some [] else js_String bi x) = None) = (\<not> convertible x)"
      using ih by (cases "x = JNull") simp_all
  qed
  also have "\<dots> = (\<not> list_all convertible xs)" by (simp add: list_all_iff)
  finally show ?case by (simp add: Let_def)
qed simp_all

lemma field_String:
  "(\<exists>s. js_String bi (nullish_or (field q k) (JStr d)) = Some s) =
     (case field q k of None \<Rightarrow> True | Some v \<Rightarrow> convertible v)"
proof (cases "field q k")
  case None
  then show ?thesis by simp
next
  case (Some v)
  then show ?thesis using js_String_convertible [of bi v] by (cases v) simp_all
qed

lemma topic_string_convertible:
  "(\<exists>s. topic_string bi topics q idx = Some s) =
     (case field q ''topic'' of None \<Rightarrow> True | Some v \<Rightarrow> convertible v)"
proof (cases "field q ''topic''")
  case None
  then show ?thesis by (simp add: topic_string_def topic_at_def)
next
  case (Some v)
  then show ?thesis using js_String_convertible [of bi v]
    by (cases v) (simp_all add: topic_string_def topic_at_def)
qed

lemma explanation_of_convertible:
  "(\<exists>e. explanation_of bi q = Some e) =
     (case field q ''explanation'' of None \<Rightarrow> True | Some v \<Rightarrow> convertible v)"
proof (cases "field q ''explanation''")
  case None
  then show ?thesis by (simp add: explanation_of_def)
next
  case (Some v)
  then show ?thesis using js_String_convertible [of bi v]
    by (cases v) (auto simp add: explanation_of_def split: option.splits)
qed

lemma normalize_question_ok:
  "(\<exists>x. normalize_question bi topics q idx = Inr x) = element_ok q"
proof (cases "q = JNull")
  case True
  then show ?thesis by (simp add: normalize_question_def element_ok_def)
next
  case False
  have "(\<exists>x. normalize_question bi topics q idx = Inr x) =
      ((\<exists>s. js_String bi (nullish_or (field q ''question'') (JStr ''Untitled'')) = Some s)
       \<and> (\<exists>s. topic_string bi topics q idx = Some s) \<and> (\<exists>e. explanation_of bi q = Some e))"
    using False by (auto simp add: normalize_question_def split: option.splits)
  then show ?thesis
    using False
    by (simp add: element_ok_def field_String topic_string_convertible explanation_of_convertible)
qed

lemma normalize_from_ok:
  "(\<exists>xs. normalize_from bi topics idx qs = Inr xs) = list_all element_ok qs"
proof (induction qs arbitrary: idx)
  case Nil
  show ?case by simp
next
  case (Cons q qs)
  have "(\<exists>xs. normalize_from bi topics idx (q # qs) = Inr xs) =
      ((\<exists>x. normalize_question bi topics q idx = Inr x)
       \<and> (\<exists>xs. normalize_from bi topics (idx + 1) qs = Inr xs))"
    by (auto split: sum.splits)
  then show ?case using Cons [of "idx + 1"] by (simp add: normalize_question_ok)
qed

lemma normalize_from_throws:
  "\<not> list_all element_ok qs \<Longrightarrow> normalize_from bi topics idx qs = Inl TypeError"
proof -
  assume "\<not> list_all element_ok qs"
  then have "\<not> (\<exists>xs. normalize_from bi topics idx qs = Inr xs)" by (simp add: normalize_from_ok)
  then obtain e where "normalize_from bi topics idx qs = Inl e"
    by (cases "normalize_from bi topics idx qs") auto
  then show ?thesis using normalize_from_Inl by blast
qed

lemma normalize_ParseError:
  "(normalize_response bi n topics content = Inl ParseError) =
     (\<not> (\<exists>parsed. json_parse bi (span_of content) = Some (JArr parsed)))"
proof (cases "json_parse bi (span_of content)")
  case None
  then show ?thesis by (simp add: normalize_response_def span_of_def Let_def)
next
  case (Some v)
  show ?thesis
  proof (cases v)
    case (JArr parsed)
    have "normalize_from bi topics 0 (js_slice0 parsed n) \<noteq> Inl ParseError"
      using normalize_from_Inl by fastforce
    with Some JArr show ?thesis by (simp add: normalize_response_def span_of_def Let_def)
  qed (use Some in \<open>simp_all add: normalize_response_def span_of_def Let_def\<close>)
qed

text \<open>
  The claim C6 as stated fails in three ways. The text \<^verbatim>\<open>[1] and [2]\<close> contains the array
  \<^verbatim>\<open>[1]\<close>, but the match runs from the first opening to the last closing bracket, that
  span does not parse, and the parse error is thrown. On the syntactically valid array
  \<^verbatim>\<open>[null]\<close> the normalizer throws, and not the parse error. And it throws as well on a
  valid array whose element has, as its question, an object with a member named
  \<^verbatim>\<open>toString\<close>.
\<close>

theorem normalize_throws_counterexample:
  "json_parse sample_builtins ''[1]'' = Some (JArr [JNum (Fin 1)])
   \<and> match_array ''[1] and [2]'' = Some ''[1] and [2]''
   \<and> normalize_response sample_builtins (Fin 5) default_topics ''[1] and [2]'' = Inl ParseError
   \<and> json_parse sample_builtins ''[null]'' = Some (JArr [JNull])
   \<and> normalize_response sample_builtins (Fin 5) default_topics ''[null]'' = Inl TypeError
   \<and> json_parse sample_builtins unprintable_text = Some (JArr [unprintable_element])
   \<and> normalize_response sample_builtins (Fin 5) default_topics unprintable_text = Inl TypeError"
  by (simp add: normalize_response_def match_array_def sample_builtins_def sample_text_def
        nested_text_def unprintable_text_def unprintable_element_def normalize_question_def)

text \<open>
  C6, as the code has it. The normalizer throws the parse error exactly when the text
  between the first opening and the last closing bracket (the whole text when there is
  no such span) does not parse as a JSON array. When it does parse as one, the
  normalizer throws (a type error) exactly when an element kept is \<^verbatim>\<open>null\<close> or has a
  question, topic or explanation that does not convert to text, which only an object
  with a member named \<^verbatim>\<open>toString\<close> does not; otherwise it returns one question per
  element kept, whatever the type, marks, options and answer of the elements and
  whatever else their question, topic and explanation are. The questions returned are
  numbered from 1 in order, whatever identifiers the elements had.
\<close>

theorem normalize_errors:
  "(normalize_response bi n topics content = Inl ParseError) =
     (\<not> (\<exists>parsed. json_parse bi (span_of content) = Some (JArr parsed)))
   \<and> (\<forall>parsed. json_parse bi (span_of content) = Some (JArr parsed) \<longrightarrow>
        (if list_all element_ok (js_slice0 parsed n)
         then \<exists>qs. normalize_response bi n topics content = Inr qs
                \<and> length qs = length (js_slice0 parsed n)
         else normalize_response bi n topics content = Inl TypeError))
   \<and> (\<forall>qs. normalize_response bi n topics content = Inr qs \<longrightarrow>
        map q_id qs = map (\<lambda>i. Fin (of_nat (i + 1))) [0 ..< length qs])"
proof (intro conjI allI impI)
  show "(normalize_response bi n topics content = Inl ParseError) =
     (\<not> (\<exists>parsed. json_parse bi (span_of content) = Some (JArr parsed)))"
    by (rule normalize_ParseError)
next
  fix parsed
  assume h: "json_parse bi (span_of content) = Some (JArr parsed)"
  then have r: "normalize_response bi n topics content =
      normalize_from bi topics 0 (js_slice0 parsed n)"
    by (simp add: normalize_response_def span_of_def Let_def)
  show "if list_all element_ok (js_slice0 parsed n)
         then \<exists>qs. normalize_response bi n topics content = Inr qs
                \<and> length qs = length (js_slice0 parsed n)
         else normalize_response bi n topics content = Inl TypeError"
  proof (cases "list_all element_ok (js_slice0 parsed n)")
    case True
    then obtain qs where qs: "normalize_from bi topics 0 (js_slice0 parsed n) = Inr qs"
      using normalize_from_ok [of bi topics 0 "js_slice0 parsed n"] by blast
    from normalize_from_Inr [OF qs] have "length qs = length (js_slice0 parsed n)" by simp
    with qs r True show ?thesis by simp
  next
    case False
    from normalize_from_throws [OF False, of bi topics 0] r False show ?thesis by simp
  qed
next
  fix qs
  assume "normalize_response bi n topics content = Inr qs"
  from normalize_Inr [OF this] obtain parsed where
    "normalize_from bi topics 0 (js_slice0 parsed n) = Inr qs" by blast
  from normalize_from_Inr [OF this]
  show "map q_id qs = map (\<lambda>i. Fin (of_nat (i + 1))) [0 ..< length qs]" by simp
qed

lemma nested_text_span: "span_of nested_text = nested_text"
  by (simp add: span_of_def match_array_def nested_text_def)

lemma nested_text_parse: "json_parse sample_builtins nested_text = Some (JArr [nested_element])"
  by (simp add: sample_builtins_def sample_text_def nested_text_def)

lemma sample_text_span: "span_of sample_text = sample_text"
  by (simp add: span_of_def match_array_def sample_text_def)

lemma sample_text_parse:
  "json_parse sample_builtins sample_text =
     Some (JArr [JObj [(''type'', JStr ''nat''), (''explanation'', JStr ''because'')]])"
  by (simp add: sample_builtins_def sample_text_def)

theorem normalize_errors_witness:
  "normalize_response sample_builtins (Fin 5) default_topics ''no array'' = Inl ParseError
   \<and> element_ok nested_element
   \<and> (\<exists>qs. normalize_response sample_builtins (Fin 5) default_topics nested_text = Inr qs
         \<and> length qs = 1 \<and> map q_id qs = [Fin 1])
   \<and> \<not> element_ok JNull
   \<and> normalize_response sample_builtins (Fin 5) default_topics ''[null]'' = Inl TypeError"
proof -
  note t1 = normalize_errors [of sample_builtins "Fin 5" default_topics "''no array''"]
  note t2 = normalize_errors [of sample_builtins "Fin 5" default_topics nested_text]
  note t3 = normalize_errors [of sample_builtins "Fin 5" default_topics "''[null]''"]
  have "\<not> (\<exists>parsed. json_parse sample_builtins (span_of ''no array'') = Some (JArr parsed))"
    by (simp add: span_of_def match_array_def sample_builtins_def sample_text_def
          nested_text_def unprintable_text_def)
  with t1 have a: "normalize_response sample_builtins (Fin 5) default_topics ''no array'' = Inl ParseError"
    by blast
  have p: "element_ok nested_element" by (simp add: element_ok_def nested_element_def)
  have h: "json_parse sample_builtins (span_of nested_text) = Some (JArr [nested_element])"
    by (simp add: nested_text_span nested_text_parse)
  have ok: "list_all element_ok (js_slice0 [nested_element] (Fin 5))" using p by simp
  from t2 h ok obtain qs where
    qs: "normalize_response sample_builtins (Fin 5) default_topics nested_text = Inr qs"
    "length qs = length (js_slice0 [nested_element] (Fin 5))"
    by (metis (no_types, lifting))
  with t2 have "map q_id qs = map (\<lambda>i. Fin (of_nat (i + 1))) [0 ..< length qs]" by blast
  with qs have one: "length qs = 1 \<and> map q_id qs = [Fin 1]" by simp
  have n: "\<not> element_ok JNull" by (simp add: element_ok_def)
  have hn: "json_parse sample_builtins (span_of ''[null]'') = Some (JArr [JNull])"
    by (simp add: span_of_def match_array_def sample_builtins_def)
  have bad: "\<not> list_all element_ok (js_slice0 [JNull] (Fin 5))" using n by simp
  from t3 hn bad
  have e: "normalize_response sample_builtins (Fin 5) default_topics ''[null]'' = Inl TypeError"
    by (metis (no_types, lifting))
  from a p qs(1) one n e show ?thesis by (intro conjI exI [of _ qs]) simp_all
qed

section \<open>Explanations\<close>

text \<open>
  C8, at the failing input. Explanations are not requested and the provider supplies one
  all the same: the question returned by \<^verbatim>\<open>generateExam\<close> carries it.
\<close>

theorem explanation_kept_when_not_requested:
  "includeExplanations_of no_explanations = False
   \<and> generateExam sample_builtins anthropic_only explanation_reply no_explanations =
       ([Anthropic],
        Some (Inr [\<lparr>q_id = Fin 1, q_type = NAT, q_question = ''Untitled'', q_options = None,
                    q_answer = Some (AStr ''0''), q_marks = Some (Fin 1),
                    q_topic = Some ''programming_and_dsa'',
                    q_explanation = Some ''because''\<rparr>]))"
proof
  show "includeExplanations_of no_explanations = False"
    by (simp add: includeExplanations_of_def no_explanations_def)
  have n: "numQuestions_of no_explanations = Fin 10"
    by (simp add: numQuestions_of_def no_explanations_def)
  have t: "topics_of no_explanations = default_topics"
    by (simp add: topics_of_def no_explanations_def)
  have q: "normalize_question sample_builtins default_topics
             (JObj [(''type'', JStr ''nat''), (''explanation'', JStr ''because'')]) 0 =
           Inr \<lparr>q_id = Fin 1, q_type = NAT, q_question = ''Untitled'', q_options = None,
                    q_answer = Some (AStr ''0''), q_marks = Some (Fin 1),
                    q_topic = Some ''programming_and_dsa'',
                    q_explanation = Some ''because''\<rparr>"
    by (simp add: normalize_question_def type_of_def marks_of_def natAns_of_def topic_string_def
          topic_at_def explanation_of_def default_topics_def)
  have "normalize_response sample_builtins (Fin 10) default_topics sample_text =
          Inr [\<lparr>q_id = Fin 1, q_type = NAT, q_question = ''Untitled'', q_options = None,
                    q_answer = Some (AStr ''0''), q_marks = Some (Fin 1),
                    q_topic = Some ''programming_and_dsa'',
                    q_explanation = Some ''because''\<rparr>]"
    using sample_text_span sample_text_parse q by (simp add: normalize_response_def span_of_def)
  then show "generateExam sample_builtins anthropic_only explanation_reply no_explanations =
       ([Anthropic],
        Some (Inr [\<lparr>q_id = Fin 1, q_type = NAT, q_question = ''Untitled'', q_options = None,
                    q_answer = Some (AStr ''0''), q_marks = Some (Fin 1),
                    q_topic = Some ''programming_and_dsa'',
                    q_explanation = Some ''because''\<rparr>]))"
    by (simp add: generateExam_def Let_def anthropic_only_def tryAnthropic_def try_candidate_def
          explanation_reply_def n t)
qed


end
